theory Spec2Isabelle
  imports Main "HOL-Library.Multiset"
begin

section \<open>Data model (types.ts)\<close>

text \<open>
  The interfaces of \<^verbatim>\<open>types.ts\<close> as records. The three \<^verbatim>\<open>id\<close> fields are named
  \<open>hanja_id\<close>, \<open>cell_id\<close> and \<open>player_id\<close> (\<open>id\<close> is the identity function of HOL),
  \<^verbatim>\<open>HanjaData.char\<close> is \<open>hanja_char\<close> and \<^verbatim>\<open>QuizState.type\<close> is \<open>quizType\<close>.
  JavaScript strings are \<open>string\<close>; a \<^verbatim>\<open>Record<string, string>\<close> is a map over its own keys.
\<close>

datatype GamePhase = SETUP | LOADING | TURN_START | PEEK | SELECT | QUIZ | EVALUATE | GAME_OVER

datatype Grade = Grade8 | Grade7 | Grade6 | Grade5 | Grade4 | Grade3 | Grade2 | Grade1

datatype GameMode = STANDARD | DRAFT

datatype QuizType = HANJA_TO_HUNEUM | HUNEUM_TO_HANJA

record HanjaData =
  hanja_id :: string
  hanja_char :: string
  hun :: string
  eum :: string
  hunEum :: string

record Cell =
  cell_id :: string
  hanja :: HanjaData
  isFlipped :: bool
  isPeeked :: bool
  gridIndex :: nat

record Player =
  player_id :: string
  name :: string
  isAI :: bool
  board :: "Cell list"
  score :: nat
  color :: "string option"
  bonusGauge :: nat
  hasShield :: bool

record GameSettings =
  grade :: Grade
  playerCount :: nat
  mode :: GameMode
  winLines :: nat

record QuizState =
  targetHanja :: "HanjaData option"
  quizType :: QuizType
  options :: "HanjaData list"
  correctOptionId :: string
  answers :: "string \<rightharpoonup> string"
  resultsShown :: bool

text \<open>
  Reading a property of \<^verbatim>\<open>undefined\<close> throws a TypeError; it is the only exception the
  modelled code can raise.
\<close>

datatype error = TypeError

text \<open>
  A number that may be \<^verbatim>\<open>NaN\<close>: \<^verbatim>\<open>turnIndex\<close> becomes \<^verbatim>\<open>NaN\<close> when the remainder is taken
  modulo an empty player list.
\<close>

datatype jsnum = Num nat | NaN

text \<open>
  The log lines of \<^verbatim>\<open>addLog\<close>, one constructor per message template of App.tsx (the
  templates are Korean text; only the interpolated values are kept).
\<close>

datatype LogMsg =
    GameStarted Grade GameMode
  | TurnOf string
  | TimeoutRandomCard
  | QuizBattleStart
  | Victory string

record GameState =
  phase :: GamePhase
  settings :: GameSettings
  players :: "Player list"
  turnIndex :: jsnum
  peekedCardIds :: "string list"
  quizState :: "QuizState option"
  gameLog :: "LogMsg list"
  timeLeft :: int

section \<open>The bingo evaluator: checkBingo (App.tsx, lines 27-48)\<close>

text \<open>\<^verbatim>\<open>board[i]\<close> followed by \<^verbatim>\<open>.isFlipped\<close>: a TypeError when \<open>i\<close> is out of range.\<close>

definition cellAt :: "Cell list \<Rightarrow> nat \<Rightarrow> error + Cell" where
  "cellAt b i = (if i < length b then Inr (b ! i) else Inl TypeError)"

text \<open>\<^verbatim>\<open>board.slice(a, e)\<close> for \<open>0 \<le> a \<le> e\<close>; it never throws.\<close>

definition slice :: "'a list \<Rightarrow> nat \<Rightarrow> nat \<Rightarrow> 'a list" where
  "slice xs a e = take (e - a) (drop a xs)"

text \<open>The loop over the rows: \<^verbatim>\<open>board.slice(i * size, (i + 1) * size).every(c => c.isFlipped)\<close>.\<close>

definition rowFull :: "Cell list \<Rightarrow> nat \<Rightarrow> bool" where
  "rowFull b i = list_all isFlipped (slice b (i * 5) ((i + 1) * 5))"

fun rowsLoop :: "Cell list \<Rightarrow> nat list \<Rightarrow> nat \<Rightarrow> nat" where
  "rowsLoop b [] lines = lines"
| "rowsLoop b (i # is) lines = rowsLoop b is (if rowFull b i then lines + 1 else lines)"

text \<open>
  The inner loop over \<open>j\<close> of a column \<open>i\<close>: it reads every \<^verbatim>\<open>board[j * size + i]\<close> (there
  is no early exit) and clears \<^verbatim>\<open>colFull\<close> at an unflipped cell.
\<close>

fun colLoop :: "Cell list \<Rightarrow> nat \<Rightarrow> nat list \<Rightarrow> bool \<Rightarrow> error + bool" where
  "colLoop b i [] colFull = Inr colFull"
| "colLoop b i (j # js) colFull =
     (case cellAt b (j * 5 + i) of
        Inl e \<Rightarrow> Inl e
      | Inr c \<Rightarrow> colLoop b i js (if \<not> isFlipped c then False else colFull))"

fun colsLoop :: "Cell list \<Rightarrow> nat list \<Rightarrow> nat \<Rightarrow> error + nat" where
  "colsLoop b [] lines = Inr lines"
| "colsLoop b (i # is) lines =
     (case colLoop b i [0..<5] True of
        Inl e \<Rightarrow> Inl e
      | Inr colFull \<Rightarrow> colsLoop b is (if colFull then lines + 1 else lines))"

text \<open>\<^verbatim>\<open>[...].every(i => board[i].isFlipped)\<close>: \<^verbatim>\<open>every\<close> stops at the first false.\<close>

fun everyFlippedAt :: "Cell list \<Rightarrow> nat list \<Rightarrow> error + bool" where
  "everyFlippedAt b [] = Inr True"
| "everyFlippedAt b (i # is) =
     (case cellAt b i of
        Inl e \<Rightarrow> Inl e
      | Inr c \<Rightarrow> if isFlipped c then everyFlippedAt b is else Inr False)"

definition checkBingo :: "Cell list \<Rightarrow> error + nat" where
  "checkBingo b =
     (let lines = rowsLoop b [0..<5] 0 in
      case colsLoop b [0..<5] lines of
        Inl e \<Rightarrow> Inl e
      | Inr lines \<Rightarrow>
         (case everyFlippedAt b [0, 6, 12, 18, 24] of
            Inl e \<Rightarrow> Inl e
          | Inr d1 \<Rightarrow>
             (let lines = (if d1 then lines + 1 else lines) in
              case everyFlippedAt b [4, 8, 12, 16, 20] of
                Inl e \<Rightarrow> Inl e
              | Inr d2 \<Rightarrow> Inr (if d2 then lines + 1 else lines))))"

subsection \<open>The evaluator as the specification words it\<close>

text \<open>
  The twelve lines of a 5 x 5 board in row-major order, as index lists: five rows, five
  columns and the two diagonals; \<open>countCompletedLines\<close> counts those whose five cells are
  all flipped.
\<close>

definition bingoRows :: "nat list list" where
  "bingoRows = map (\<lambda>r. map (\<lambda>k. r * 5 + k) [0..<5]) [0..<5]"

definition bingoCols :: "nat list list" where
  "bingoCols = map (\<lambda>c. map (\<lambda>k. k * 5 + c) [0..<5]) [0..<5]"

definition bingoDiagonals :: "nat list list" where
  "bingoDiagonals = [[0, 6, 12, 18, 24], [4, 8, 12, 16, 20]]"

definition lineFlipped :: "Cell list \<Rightarrow> nat list \<Rightarrow> bool" where
  "lineFlipped b line = list_all (\<lambda>i. isFlipped (b ! i)) line"

definition countCompletedLines :: "Cell list \<Rightarrow> nat" where
  "countCompletedLines b =
     length (filter (lineFlipped b) (bingoRows @ bingoCols @ bingoDiagonals))"

section \<open>Constants and helpers of App.tsx\<close>

definition TURN_TIMEOUT :: int where
  "TURN_TIMEOUT = 30"

definition QUIZ_TIMEOUT :: int where
  "QUIZ_TIMEOUT = 10"

definition COLORS :: "string list" where
  "COLORS = [''#3b82f6'', ''#ef4444'', ''#22c55e'', ''#f59e0b'']"

text \<open>The marker the countdown writes for a player who did not answer (line 174).\<close>

definition TIMEOUT_WRONG :: string where
  "TIMEOUT_WRONG = ''TIMEOUT_WRONG''"

text \<open>
  \<^verbatim>\<open>shuffle\<close> sorts a copy with a random comparator, and \<^verbatim>\<open>Math.random()\<close> decides the
  coins. The random outcomes are parameters of the model: a coin is a \<open>bool\<close>, a shuffle
  is a function on lists, and \<open>shuffles sh\<close> says that \<open>sh\<close> only permutes.
\<close>

record Rand =
  coin :: bool
  shuffleCells :: "Cell list \<Rightarrow> Cell list"
  shuffleDistractors :: "HanjaData list \<Rightarrow> HanjaData list"
  shuffleOptions :: "HanjaData list \<Rightarrow> HanjaData list"

definition shuffles :: "('a list \<Rightarrow> 'a list) \<Rightarrow> bool" where
  "shuffles sh = (\<forall>xs. mset (sh xs) = mset xs)"

text \<open>\<^verbatim>\<open>xs[i]\<close>: \<^verbatim>\<open>undefined\<close> (here \<open>None\<close>) out of range.\<close>

definition listAt :: "'a list \<Rightarrow> nat \<Rightarrow> 'a option" where
  "listAt xs i = (if i < length xs then Some (xs ! i) else None)"

text \<open>
  The truth value of \<^verbatim>\<open>answers[id]\<close> in a condition: \<^verbatim>\<open>undefined\<close> and the empty string
  are false, every other string is true.
\<close>

definition truthy :: "string option \<Rightarrow> bool" where
  "truthy v = (case v of None \<Rightarrow> False | Some x \<Rightarrow> x \<noteq> [])"

text \<open>Template literals print a number in decimal.\<close>

fun toString :: "nat \<Rightarrow> string" where
  "toString n =
     (if n < 10 then [char_of (48 + n)]
      else toString (n div 10) @ [char_of (48 + n mod 10)])"

declare toString.simps [simp del]

text \<open>\<^verbatim>\<open>addLog\<close> (line 76): the new message first, five messages kept.\<close>

definition addLog :: "LogMsg \<Rightarrow> GameState \<Rightarrow> GameState" where
  "addLog msg s = s\<lparr>gameLog := take 5 (msg # gameLog s)\<rparr>"

text \<open>\<^verbatim>\<open>players[turnIndex]\<close> and \<^verbatim>\<open>activePlayer?.id === 'player-1'\<close> (lines 72-73).\<close>

definition activePlayer :: "GameState \<Rightarrow> Player option" where
  "activePlayer s = (case turnIndex s of NaN \<Rightarrow> None | Num t \<Rightarrow> listAt (players s) t)"

definition isMyTurn :: "GameState \<Rightarrow> bool" where
  "isMyTurn s = (case activePlayer s of None \<Rightarrow> False | Some p \<Rightarrow> player_id p = ''player-1'')"

section \<open>The item ids of the item pool (services/geminiService.ts)\<close>

text \<open>
  \<^verbatim>\<open>fetchHanjaData\<close> is the only source of items. It returns a prefix of
  \<^verbatim>\<open>FALLBACK_HANJA\<close>, whose ids are the numbers 1 to 30 in decimal, or items whose id is
  \<^verbatim>\<open>`gemini-${Date.now()}-${index}`\<close>. \<open>fetchedId\<close> recognises these two shapes.
\<close>

definition FALLBACK_IDS :: "string list" where
  "FALLBACK_IDS = map toString [1..<31]"

definition geminiId :: "nat \<Rightarrow> nat \<Rightarrow> string" where
  "geminiId now index = ''gemini-'' @ toString now @ ''-'' @ toString index"

definition fetchedId :: "string \<Rightarrow> bool" where
  "fetchedId x = (x \<in> set FALLBACK_IDS \<or> take 7 x = ''gemini-'')"

section \<open>Starting a game: startGame (lines 80-109)\<close>

definition startGame_begin :: "GameState \<Rightarrow> GameState" where
  "startGame_begin s = s\<lparr>phase := LOADING\<rparr>"

text \<open>The name of the human player, \<^verbatim>\<open>'P1 '\<close> and one Hangul syllable (U+B098), in UTF-8.\<close>

definition P1_NAME :: string where
  "P1_NAME = ''P1 '' @ [CHR 0xEB, CHR 0x82, CHR 0x98]"

definition newCell :: "nat \<Rightarrow> nat \<times> HanjaData \<Rightarrow> Cell" where
  "newCell i = (\<lambda>(idx, h).
     \<lparr>cell_id = hanja_id h @ ''-'' @ toString i, hanja = h, isFlipped = False,
      isPeeked = False, gridIndex = idx\<rparr>)"

text \<open>
  Player \<open>i\<close> of \<^verbatim>\<open>newPlayers\<close>; \<open>sh i\<close> is the shuffle drawn for that player's board.
\<close>

definition newPlayer ::
  "(nat \<Rightarrow> HanjaData list \<Rightarrow> HanjaData list) \<Rightarrow> HanjaData list \<Rightarrow> nat \<Rightarrow> Player" where
  "newPlayer sh hanjaPool i =
     \<lparr>player_id = ''player-'' @ toString (i + 1),
      name = (if i = 0 then P1_NAME else ''P'' @ toString (i + 1) @ '' AI''),
      isAI = (i \<noteq> 0),
      board = map (newCell i) (enumerate 0 (sh i hanjaPool)),
      score = 0,
      color = listAt COLORS i,
      bonusGauge = 0,
      hasShield = False\<rparr>"


section \<open>Effects on a phase change (lines 111-140)\<close>

text \<open>The turn management effect and the callback of its one second timeout.\<close>

definition turnStartEffect :: "GameState \<Rightarrow> GameState" where
  "turnStartEffect s =
     (if phase s = TURN_START then
        (case activePlayer s of
           None \<Rightarrow> s
         | Some currentPlayer \<Rightarrow> (addLog (TurnOf (name currentPlayer)) s)\<lparr>peekedCardIds := []\<rparr>)
      else s)"

definition turnStartTimeout :: "GameState \<Rightarrow> GameState" where
  "turnStartTimeout s = s\<lparr>phase := PEEK\<rparr>"

text \<open>
  The timer initialisation effect, run by React after a render in which \<^verbatim>\<open>phase\<close> changed.
\<close>

definition timerInitEffect :: "GameState \<Rightarrow> GameState" where
  "timerInitEffect s =
     (let s1 = (if phase s = PEEK then s\<lparr>timeLeft := TURN_TIMEOUT\<rparr> else s) in
      if phase s = QUIZ then s1\<lparr>timeLeft := QUIZ_TIMEOUT\<rparr> else s1)"

section \<open>Actions (lines 265-308)\<close>

definition handlePeekClick :: "Cell \<Rightarrow> GameState \<Rightarrow> GameState" where
  "handlePeekClick cell s =
     (if phase s \<noteq> PEEK \<or> \<not> isMyTurn s \<or> isFlipped cell then s
      else if cell_id cell \<in> set (peekedCardIds s) then s
      else if length (peekedCardIds s) < 3 then s\<lparr>peekedCardIds := peekedCardIds s @ [cell_id cell]\<rparr>
      else s)"

definition finishPeek :: "GameState \<Rightarrow> GameState" where
  "finishPeek s = s\<lparr>phase := SELECT, peekedCardIds := []\<rparr>"

text \<open>
  The quiz that \<^verbatim>\<open>handleSelectCard\<close> builds from the selected item and the items of the first
  player's board.
\<close>

definition buildQuiz :: "Rand \<Rightarrow> HanjaData \<Rightarrow> HanjaData list \<Rightarrow> QuizState" where
  "buildQuiz r h allHanja =
     (let isHanjaToHunEum = coin r;
          distractors = take 3 (shuffleDistractors r (filter (\<lambda>x. hanja_id x \<noteq> hanja_id h) allHanja));
          opts = shuffleOptions r (h # distractors)
      in \<lparr>targetHanja = Some h,
          quizType = (if isHanjaToHunEum then HANJA_TO_HUNEUM else HUNEUM_TO_HANJA),
          options = opts,
          correctOptionId = hanja_id h,
          answers = Map.empty,
          resultsShown = False\<rparr>)"

definition handleSelectCard :: "Rand \<Rightarrow> HanjaData \<Rightarrow> GameState \<Rightarrow> error + GameState" where
  "handleSelectCard r h s =
     (case players s of
        [] \<Rightarrow> Inl TypeError
      | p0 # _ \<Rightarrow>
          Inr (addLog QuizBattleStart
                 (s\<lparr>quizState := Some (buildQuiz r h (map hanja (board p0))), phase := QUIZ\<rparr>)))"

text \<open>The updater that \<^verbatim>\<open>handleQuizAnswer\<close> passes to \<^verbatim>\<open>setQuizState\<close>, and the action.\<close>

definition recordAnswer :: "string \<Rightarrow> string \<Rightarrow> QuizState option \<Rightarrow> QuizState option" where
  "recordAnswer playerId optionId prev =
     (case prev of
        None \<Rightarrow> None
      | Some q \<Rightarrow>
          if truthy (answers q playerId) then Some q
          else Some (q\<lparr>answers := (answers q)(playerId \<mapsto> optionId)\<rparr>))"

definition handleQuizAnswer :: "string \<Rightarrow> string \<Rightarrow> GameState \<Rightarrow> GameState" where
  "handleQuizAnswer playerId optionId s = s\<lparr>quizState := recordAnswer playerId optionId (quizState s)\<rparr>"

section \<open>The countdown (lines 142-183)\<close>

text \<open>The callback of the one second interval, set while \<open>timerRunning\<close> holds.\<close>

definition timerRunning :: "GameState \<Rightarrow> bool" where
  "timerRunning s = ((phase s = PEEK \<or> phase s = SELECT \<or> phase s = QUIZ) \<and> timeLeft s > 0)"

definition timerTick :: "GameState \<Rightarrow> GameState" where
  "timerTick s = s\<lparr>timeLeft := timeLeft s - 1\<rparr>"

text \<open>
  The forced choice of a card (lines 161-162 and 213-214): the first of the shuffled
  unflipped cells of the player, or the first cell of the board when all are flipped;
  reading \<^verbatim>\<open>.hanja\<close> of a missing cell throws.
\<close>

definition pickTarget :: "Rand \<Rightarrow> Player \<Rightarrow> error + HanjaData" where
  "pickTarget r p =
     (let unrevealed = filter (\<lambda>c. \<not> isFlipped c) (board p) in
      case (if length unrevealed > 0 then listAt (shuffleCells r unrevealed) 0
            else listAt (board p) 0) of
        None \<Rightarrow> Inl TypeError
      | Some target \<Rightarrow> Inr (hanja target))"

text \<open>
  The players without an answer, as the expiry branch computes them, and the updater it
  passes to \<^verbatim>\<open>setQuizState\<close>: it writes the marker for each of them, in order.
\<close>

definition missingPlayers :: "Player list \<Rightarrow> QuizState \<Rightarrow> Player list" where
  "missingPlayers ps q = filter (\<lambda>p. \<not> truthy (answers q (player_id p))) ps"

definition fillTimeouts :: "Player list \<Rightarrow> QuizState option \<Rightarrow> QuizState option" where
  "fillTimeouts missing prev =
     (case prev of
        None \<Rightarrow> None
      | Some q \<Rightarrow>
          Some (q\<lparr>answers := foldl (\<lambda>newAnswers p. newAnswers(player_id p \<mapsto> TIMEOUT_WRONG))
                                  (answers q) missing\<rparr>))"

text \<open>
  The body of the countdown effect at the state it runs in (\<^verbatim>\<open>phaseRef.current\<close> is the
  phase of the last render). While the timer runs it only sets the interval. An exception
  is \<open>Inl\<close>; the log line queued before a throwing \<^verbatim>\<open>target.hanja\<close> is not kept.
\<close>

definition countdownEffect :: "Rand \<Rightarrow> GameState \<Rightarrow> error + GameState" where
  "countdownEffect r s =
     (if timerRunning s then Inr s
      else if timeLeft s = 0 then
        (if phase s = PEEK then Inr (finishPeek s)
         else if phase s = SELECT then
           (case activePlayer s of
              None \<Rightarrow> Inr s
            | Some ap \<Rightarrow>
               (case pickTarget r ap of
                  Inl e \<Rightarrow> Inl e
                | Inr h \<Rightarrow> handleSelectCard r h (addLog TimeoutRandomCard s)))
         else if phase s = QUIZ then
           (case quizState s of
              None \<Rightarrow> Inr s
            | Some q \<Rightarrow>
               if \<not> resultsShown q then
                 (let missing = missingPlayers (players s) q in
                  if length missing > 0 then Inr (s\<lparr>quizState := fillTimeouts missing (quizState s)\<rparr>)
                  else Inr s)
               else Inr s)
         else Inr s)
      else Inr s)"

section \<open>The simulated opponents (lines 185-262)\<close>

text \<open>
  The two effects schedule callbacks that fire later. A callback reads \<^verbatim>\<open>activePlayer\<close>,
  \<^verbatim>\<open>quizState\<close> and \<^verbatim>\<open>timeLeft\<close> of the render that scheduled it, so these are parameters
  (\<open>ap\<close>, \<open>q\<close>, \<open>left\<close>) of the functions below, and it reads the phase of the state it
  fires in through \<^verbatim>\<open>phaseRef\<close>. The updates apply to the state it fires in. After
  peeking, the AI calls \<^verbatim>\<open>finishPeek\<close> with no further check.
\<close>

definition aiPeekIds :: "Rand \<Rightarrow> Player \<Rightarrow> string list" where
  "aiPeekIds r ap =
     (let unrevealed = filter (\<lambda>c. \<not> isFlipped c) (board ap);
          peekCount = min 2 (length unrevealed)
      in map cell_id (take peekCount (shuffleCells r unrevealed)))"

definition aiPeek :: "Rand \<Rightarrow> Player \<Rightarrow> GameState \<Rightarrow> GameState" where
  "aiPeek r ap s = s\<lparr>peekedCardIds := aiPeekIds r ap\<rparr>"

definition aiSelect :: "Rand \<Rightarrow> Player \<Rightarrow> GameState \<Rightarrow> error + GameState" where
  "aiSelect r ap s =
     (if phase s = SELECT then
        (case pickTarget r ap of Inl e \<Rightarrow> Inl e | Inr h \<Rightarrow> handleSelectCard r h s)
      else Inr s)"

text \<open>
  The answer of the AI whose turn it is (lines 228-231): \<open>coin r\<close> is
  \<^verbatim>\<open>Math.random() > 0.2\<close>; otherwise the first of the shuffled options.
\<close>

definition aiAnswerId :: "Rand \<Rightarrow> QuizState \<Rightarrow> error + string" where
  "aiAnswerId r q =
     (let isCorrect = coin r in
      if isCorrect then Inr (correctOptionId q)
      else (case listAt (shuffleOptions r (options q)) 0 of
              None \<Rightarrow> Inl TypeError
            | Some opt \<Rightarrow> Inr (hanja_id opt)))"

definition aiAnswer :: "Rand \<Rightarrow> Player \<Rightarrow> QuizState \<Rightarrow> int \<Rightarrow> GameState \<Rightarrow> error + GameState" where
  "aiAnswer r ap q left s =
     (if phase s = QUIZ \<and> left > 0 then
        (case aiAnswerId r q of
           Inl e \<Rightarrow> Inl e
         | Inr answerId \<Rightarrow> Inr (handleQuizAnswer (player_id ap) answerId s))
      else Inr s)"

text \<open>
  The answer of any AI player in the second effect (lines 250-253): \<open>coin r\<close> is
  \<^verbatim>\<open>Math.random() > 0.3\<close>; otherwise the first of the shuffled options other than the
  correct one, and \<^verbatim>\<open>options[0].id\<close> when that id is missing or empty.
\<close>

definition bystanderAnswerId :: "Rand \<Rightarrow> QuizState \<Rightarrow> error + string" where
  "bystanderAnswerId r q =
     (let isCorrect = coin r in
      if isCorrect then Inr (correctOptionId q)
      else
        (let picked = map_option hanja_id
               (listAt (shuffleOptions r (filter (\<lambda>opt. hanja_id opt \<noteq> correctOptionId q) (options q))) 0)
         in if truthy picked then Inr (the picked)
            else (case listAt (options q) 0 of
                    None \<Rightarrow> Inl TypeError
                  | Some opt \<Rightarrow> Inr (hanja_id opt))))"

definition bystanderAnswer :: "Rand \<Rightarrow> Player \<Rightarrow> QuizState \<Rightarrow> GameState \<Rightarrow> error + GameState" where
  "bystanderAnswer r p q s =
     (if phase s = QUIZ \<and> \<not> truthy (answers q (player_id p)) then
        (case bystanderAnswerId r q of
           Inl e \<Rightarrow> Inl e
         | Inr targetOption \<Rightarrow> Inr (handleQuizAnswer (player_id p) targetOption s))
      else Inr s)"

section \<open>The handlers the rendered page attaches (lines 388-736, QuizBattle.tsx)\<close>

text \<open>
  A card of the human's board: \<^verbatim>\<open>onClick\<close> is dropped when the card is disabled
  (\<^verbatim>\<open>!isMyTurn && phase !== QUIZ\<close>); otherwise it calls \<^verbatim>\<open>handlePeekClick\<close> in PEEK and
  \<^verbatim>\<open>handleSelectCard\<close> in SELECT on the human's turn.
\<close>

definition cardClick :: "Rand \<Rightarrow> Cell \<Rightarrow> GameState \<Rightarrow> error + GameState" where
  "cardClick r cell s =
     (if \<not> isMyTurn s \<and> phase s \<noteq> QUIZ then Inr s
      else
        (let s1 = (if phase s = PEEK then handlePeekClick cell s else s) in
         if phase s = SELECT \<and> isMyTurn s then handleSelectCard r (hanja cell) s1 else Inr s1))"

text \<open>The buttons exist only in the phase named by their guard.\<close>

definition startButton :: "GameState \<Rightarrow> GameState" where
  "startButton s = (if phase s = SETUP then startGame_begin s else s)"

definition finishPeekButton :: "GameState \<Rightarrow> GameState" where
  "finishPeekButton s =
     (if isMyTurn s \<and> phase s = PEEK \<and> \<not> length (peekedCardIds s) < 1 then finishPeek s else s)"

definition resetToSetup :: "GameState \<Rightarrow> GameState" where
  "resetToSetup s = s\<lparr>phase := SETUP\<rparr>"

definition playAgainButton :: "GameState \<Rightarrow> GameState" where
  "playAgainButton s = (if phase s = GAME_OVER then resetToSetup s else s)"

text \<open>
  An option of the quiz overlay, which is rendered in QUIZ while a quiz exists and calls
  \<^verbatim>\<open>handleQuizAnswer(players[0].id, optId)\<close>.
\<close>

definition optionButton :: "string \<Rightarrow> GameState \<Rightarrow> error + GameState" where
  "optionButton optionId s =
     (case quizState s of
        None \<Rightarrow> Inr s
      | Some q \<Rightarrow>
          if phase s \<noteq> QUIZ then Inr s
          else
            (case players s of
               [] \<Rightarrow> Inl TypeError
             | me # _ \<Rightarrow>
                 if targetHanja q \<noteq> None \<and> \<not> truthy (answers q (player_id me))
                    \<and> \<not> resultsShown q \<and> timeLeft s > 0
                 then Inr (handleQuizAnswer (player_id me) optionId s)
                 else Inr s))"

text \<open>The settings form, rendered in SETUP only.\<close>

definition settingsForm :: "GameSettings \<Rightarrow> GameState \<Rightarrow> GameState" where
  "settingsForm st s = (if phase s = SETUP then s\<lparr>settings := st\<rparr> else s)"

section \<open>Round evaluation (lines 310-363)\<close>

definition allAnswered :: "Player list \<Rightarrow> QuizState \<Rightarrow> bool" where
  "allAnswered ps q = list_all (\<lambda>p. truthy (answers q (player_id p))) ps"

text \<open>
  The effect that shows the results once everybody answered; it also schedules
  \<^verbatim>\<open>evaluateRound\<close>, as it is in this render, three seconds later.
\<close>

definition resultsEffect :: "GameState \<Rightarrow> GameState" where
  "resultsEffect s =
     (case quizState s of
        None \<Rightarrow> s
      | Some q \<Rightarrow>
          if phase s = QUIZ \<and> allAnswered (players s) q \<and> \<not> resultsShown q
          then s\<lparr>quizState := Some (q\<lparr>resultsShown := True\<rparr>)\<rparr>
          else s)"

text \<open>The function mapped over \<^verbatim>\<open>players\<close> (lines 330-349).\<close>

definition evaluatePlayer :: "QuizState \<Rightarrow> Player \<Rightarrow> error + Player" where
  "evaluatePlayer q p =
     (let correctHanjaId = correctOptionId q;
          userAnswer = answers q (player_id p);
          isCorrect = (userAnswer = Some correctHanjaId)
      in if isCorrect then
           (let updatedBoard =
                  map (\<lambda>cell. if hanja_id (hanja cell) = correctHanjaId
                               then cell\<lparr>isFlipped := True\<rparr> else cell) (board p)
            in case checkBingo updatedBoard of
                 Inl e \<Rightarrow> Inl e
               | Inr bingoCount \<Rightarrow> Inr (p\<lparr>board := updatedBoard, score := bingoCount\<rparr>))
         else Inr p)"

text \<open>\<^verbatim>\<open>Array.prototype.map\<close> with a callback that may throw: the first exception ends it.\<close>

fun mapE :: "('a \<Rightarrow> error + 'b) \<Rightarrow> 'a list \<Rightarrow> error + 'b list" where
  "mapE f [] = Inr []"
| "mapE f (x # xs) =
     (case f x of
        Inl e \<Rightarrow> Inl e
      | Inr y \<Rightarrow> (case mapE f xs of Inl e \<Rightarrow> Inl e | Inr ys \<Rightarrow> Inr (y # ys)))"

definition nextPlayers :: "QuizState \<Rightarrow> Player list \<Rightarrow> error + Player list" where
  "nextPlayers q ps = mapE (evaluatePlayer q) ps"

text \<open>\<^verbatim>\<open>(prev + 1) % players.length\<close> on JavaScript numbers.\<close>

fun nextTurn :: "jsnum \<Rightarrow> nat \<Rightarrow> jsnum" where
  "nextTurn NaN n = NaN"
| "nextTurn (Num t) n = (if n = 0 then NaN else Num ((t + 1) mod n))"

text \<open>
  \<^verbatim>\<open>evaluateRound\<close> is a closure of the render that scheduled its timeout (line 318; the
  timeout is never cleared): it reads \<^verbatim>\<open>quizState\<close>, \<^verbatim>\<open>players\<close> and \<^verbatim>\<open>settings\<close> of that
  render, here \<open>c\<close>. Its setters act on the state \<open>s\<close> in which the timeout fires:
  \<^verbatim>\<open>setPlayers\<close> stores the list computed from the players of \<open>c\<close>, and the updaters of
  the log and of \<^verbatim>\<open>turnIndex\<close> start from the values of \<open>s\<close>.
\<close>

definition evaluateRound :: "GameState \<Rightarrow> GameState \<Rightarrow> error + GameState" where
  "evaluateRound c s =
     (case quizState c of
        None \<Rightarrow> Inr s
      | Some q \<Rightarrow>
         (case nextPlayers q (players c) of
            Inl e \<Rightarrow> Inl e
          | Inr ps \<Rightarrow>
             (case find (\<lambda>p. score p \<ge> winLines (settings c)) ps of
                Some winner \<Rightarrow>
                  Inr (addLog (Victory (name winner)) (s\<lparr>players := ps, phase := GAME_OVER\<rparr>))
              | None \<Rightarrow>
                  Inr (s\<lparr>players := ps, phase := TURN_START,
                         turnIndex := nextTurn (turnIndex s) (length (players c)),
                         quizState := None\<rparr>))))"

text \<open>
  The renders in which the results effect schedules \<^verbatim>\<open>evaluateRound\<close> (lines 312-320).
\<close>

definition roundScheduled :: "GameState \<Rightarrow> bool" where
  "roundScheduled c =
     (case quizState c of
        None \<Rightarrow> False
      | Some q \<Rightarrow> phase c = QUIZ \<and> allAnswered (players c) q \<and> \<not> resultsShown q)"

section \<open>The game as a transition system\<close>

text \<open>
  One rule for every piece of App.tsx that updates the state. An effect or a handler runs
  at the state it updates; a delayed callback updates the state it fires in and reads
  its closure as described above. \<open>quiet_step\<close> has every update but round evaluation
  and the construction of the boards, \<open>play_step\<close> adds round evaluation, with any render
  that scheduled it as its closure, and \<open>game_step\<close> adds the construction of the boards.
\<close>

inductive quiet_step :: "GameState \<Rightarrow> GameState \<Rightarrow> bool" where
  start_begin: "quiet_step s (startGame_begin s)"
| start_button: "quiet_step s (startButton s)"
| settings_form: "quiet_step s (settingsForm st s)"
| turn_start_effect: "quiet_step s (turnStartEffect s)"
| turn_start_timeout: "quiet_step s (turnStartTimeout s)"
| timer_init: "quiet_step s (timerInitEffect s)"
| timer_tick: "timerRunning s \<Longrightarrow> quiet_step s (timerTick s)"
| countdown: "countdownEffect r s = Inr s' \<Longrightarrow> quiet_step s s'"
| ai_peek: "isAI ap \<Longrightarrow> quiet_step s (aiPeek r ap s)"
| ai_select: "isAI ap \<Longrightarrow> aiSelect r ap s = Inr s' \<Longrightarrow> quiet_step s s'"
| ai_answer: "isAI ap \<Longrightarrow> aiAnswer r ap q left s = Inr s' \<Longrightarrow> quiet_step s s'"
| bystander_answer: "isAI p \<Longrightarrow> bystanderAnswer r p q s = Inr s' \<Longrightarrow> quiet_step s s'"
| peek_click: "quiet_step s (handlePeekClick cell s)"
| finish_peek: "quiet_step s (finishPeek s)"
| finish_peek_button: "quiet_step s (finishPeekButton s)"
| select_card: "handleSelectCard r h s = Inr s' \<Longrightarrow> quiet_step s s'"
| card_click: "cardClick r cell s = Inr s' \<Longrightarrow> quiet_step s s'"
| quiz_answer: "quiet_step s (handleQuizAnswer playerId optionId s)"
| option_button: "optionButton optionId s = Inr s' \<Longrightarrow> quiet_step s s'"
| results_effect: "quiet_step s (resultsEffect s)"
| reset: "quiet_step s (resetToSetup s)"
| play_again_button: "quiet_step s (playAgainButton s)"

inductive play_step :: "GameState \<Rightarrow> GameState \<Rightarrow> bool" where
  quiet: "quiet_step s s' \<Longrightarrow> play_step s s'"
| evaluate_round: "roundScheduled c \<Longrightarrow> evaluateRound c s = Inr s' \<Longrightarrow> play_step s s'"


text \<open>
  What it means that a list of players keeps its boards: the same players, and on every
  board the same cells at the same places, each flipped cell still flipped.
\<close>

definition cellKept :: "Cell \<Rightarrow> Cell \<Rightarrow> bool" where
  "cellKept c c' =
     (cell_id c' = cell_id c \<and> hanja c' = hanja c \<and> gridIndex c' = gridIndex c
      \<and> (isFlipped c \<longrightarrow> isFlipped c'))"

definition playerKept :: "Player \<Rightarrow> Player \<Rightarrow> bool" where
  "playerKept p p' = (player_id p' = player_id p \<and> list_all2 cellKept (board p) (board p'))"

definition boardsKept :: "Player list \<Rightarrow> Player list \<Rightarrow> bool" where
  "boardsKept ps ps' = list_all2 playerKept ps ps'"

section \<open>The quiz and the round as the specification words them\<close>

text \<open>
  \<open>isCorrect\<close>, the flip of the cells that hold an item, and \<open>evaluateRound_spec\<close>: the
  players after a round, each correct player with the target's cells of the own board
  flipped and the score counted again, every other player as before.
\<close>

definition isCorrect :: "QuizState \<Rightarrow> string \<Rightarrow> bool" where
  "isCorrect q playerId = (answers q playerId = Some (correctOptionId q))"

definition flipItem :: "string \<Rightarrow> Cell list \<Rightarrow> Cell list" where
  "flipItem itemId b = map (\<lambda>c. if hanja_id (hanja c) = itemId then c\<lparr>isFlipped := True\<rparr> else c) b"

definition evaluateRound_spec :: "QuizState \<Rightarrow> HanjaData \<Rightarrow> Player list \<Rightarrow> Player list" where
  "evaluateRound_spec q target ps =
     map (\<lambda>p. if isCorrect q (player_id p)
               then p\<lparr>board := flipItem (hanja_id target) (board p),
                      score := countCompletedLines (flipItem (hanja_id target) (board p))\<rparr>
               else p) ps"

text \<open>
  The operations on the answers of one quiz: an answer of a player, or the fill of the
  countdown for the players of the game.
\<close>

datatype QuizOp = Answer string string | TimeoutFill

text \<open>
  Every value written to \<open>answers\<close> is the id of an option or \<open>TIMEOUT_WRONG\<close>, and none
  of these is the empty string: \<open>nonEmptyAnswers\<close> says so of a quiz and \<open>nonEmptyOp\<close> of
  an operation.
\<close>

definition nonEmptyAnswers :: "QuizState \<Rightarrow> bool" where
  "nonEmptyAnswers q = (\<forall>k v. answers q k = Some v \<longrightarrow> v \<noteq> [])"

fun nonEmptyOp :: "QuizOp \<Rightarrow> bool" where
  "nonEmptyOp (Answer playerId optionId) = (optionId \<noteq> [])"
| "nonEmptyOp TimeoutFill = True"

fun applyQuizOp :: "Player list \<Rightarrow> QuizState option \<Rightarrow> QuizOp \<Rightarrow> QuizState option" where
  "applyQuizOp ps prev (Answer playerId optionId) = recordAnswer playerId optionId prev"
| "applyQuizOp ps prev TimeoutFill =
     (case prev of None \<Rightarrow> None | Some q \<Rightarrow> fillTimeouts (missingPlayers ps q) prev)"

definition runQuizOps :: "Player list \<Rightarrow> QuizOp list \<Rightarrow> QuizState option \<Rightarrow> QuizState option" where
  "runQuizOps ps ops prev = foldl (applyQuizOp ps) prev ops"

section \<open>Example data\<close>

text \<open>
  Items with the ids of the fallback list (their texts are left empty), the boards that
  \<^verbatim>\<open>startGame\<close> builds from the first 25 of them for two players, and states of a game
  between these two.
\<close>

definition exampleItem :: "nat \<Rightarrow> HanjaData" where
  "exampleItem i = \<lparr>hanja_id = toString (i + 1), hanja_char = [], hun = [], eum = [], hunEum = []\<rparr>"

definition examplePool :: "HanjaData list" where
  "examplePool = map exampleItem [0..<25]"

definition exampleSettings :: GameSettings where
  "exampleSettings = \<lparr>grade = Grade8, playerCount = 2, mode = STANDARD, winLines = 1\<rparr>"

definition exampleRand :: Rand where
  "exampleRand = \<lparr>coin = False, shuffleCells = (\<lambda>xs. xs), shuffleDistractors = rev,
                   shuffleOptions = (\<lambda>xs. xs)\<rparr>"

text \<open>Player \<open>i\<close> with the cells at the places \<open>flipped\<close> turned over and a given score.\<close>

definition examplePlayer :: "nat \<Rightarrow> nat list \<Rightarrow> nat \<Rightarrow> Player" where
  "examplePlayer i flipped n =
     (newPlayer (\<lambda>k xs. xs) examplePool i)
       \<lparr>board := map (\<lambda>c. c\<lparr>isFlipped := gridIndex c \<in> set flipped\<rparr>)
                    (board (newPlayer (\<lambda>k xs. xs) examplePool i)),
        score := n\<rparr>"

definition exampleQuiz :: "(string \<times> string) list \<Rightarrow> QuizState" where
  "exampleQuiz given =
     (buildQuiz exampleRand (exampleItem 4) examplePool)\<lparr>answers := map_of given\<rparr>"

definition exampleQuizOn :: "nat \<Rightarrow> (string \<times> string) list \<Rightarrow> QuizState" where
  "exampleQuizOn n given =
     (buildQuiz exampleRand (exampleItem n) examplePool)\<lparr>answers := map_of given\<rparr>"

definition exampleState :: "GamePhase \<Rightarrow> Player list \<Rightarrow> QuizState option \<Rightarrow> int \<Rightarrow> GameState" where
  "exampleState ph ps q t =
     \<lparr>phase = ph, settings = exampleSettings, players = ps, turnIndex = Num 0,
      peekedCardIds = [], quizState = q, gameLog = [], timeLeft = t\<rparr>"

text \<open>
  A finished game: the first player has completed the first row. And a state in PEEK on
  the second player's turn.
\<close>

definition exampleGameOver :: GameState where
  "exampleGameOver =
     exampleState GAME_OVER [examplePlayer 0 [0, 1, 2, 3, 4] 1, examplePlayer 1 [0, 1, 2, 3] 0]
       (Some (exampleQuiz [(''player-1'', ''5''), (''player-2'', TIMEOUT_WRONG)])) 0"

definition exampleOpponentPeek :: GameState where
  "exampleOpponentPeek =
     (exampleState PEEK [examplePlayer 0 [] 0, examplePlayer 1 [] 0] None 17)\<lparr>turnIndex := Num 1\<rparr>"

section \<open>Properties of the bingo evaluator\<close>

lemma cellAt_in_range: "i < length b \<Longrightarrow> cellAt b i = Inr (b ! i)"
  by (simp add: cellAt_def)

lemma rowsLoop_count: "rowsLoop b is n = n + length (filter (rowFull b) is)"
  by (induction "is" arbitrary: n) simp_all

lemma colLoop_in_range:
  "(\<And>j. j \<in> set js \<Longrightarrow> j * 5 + i < length b) \<Longrightarrow>
   colLoop b i js acc = Inr (acc \<and> list_all (\<lambda>j. isFlipped (b ! (j * 5 + i))) js)"
proof (induction js arbitrary: acc)
  case Nil
  show ?case by simp
next
  case (Cons j js)
  have here: "cellAt b (j * 5 + i) = Inr (b ! (j * 5 + i))"
    using Cons.prems [of j] by (simp add: cellAt_in_range)
  have rest: "\<And>a. colLoop b i js a = Inr (a \<and> list_all (\<lambda>j. isFlipped (b ! (j * 5 + i))) js)"
    using Cons.IH Cons.prems by simp
  show ?case
    by (simp add: here rest)
qed

lemma everyFlippedAt_in_range:
  "(\<And>i. i \<in> set is \<Longrightarrow> i < length b) \<Longrightarrow>
   everyFlippedAt b is = Inr (list_all (\<lambda>i. isFlipped (b ! i)) is)"
  by (induction "is") (simp_all add: cellAt_in_range)

lemma colsLoop_count:
  "(\<And>i j. i \<in> set is \<Longrightarrow> j < 5 \<Longrightarrow> j * 5 + i < length b) \<Longrightarrow>
   colsLoop b is n =
     Inr (n + length (filter (\<lambda>i. list_all (\<lambda>j. isFlipped (b ! (j * 5 + i))) [0..<5]) is))"
proof (induction "is" arbitrary: n)
  case Nil
  show ?case by simp
next
  case (Cons i "is")
  have col: "colLoop b i [0..<5] True = Inr (list_all (\<lambda>j. isFlipped (b ! (j * 5 + i))) [0..<5])"
    using colLoop_in_range [of "[0..<5]" i b True] Cons.prems [of i] by simp
  have rest: "\<And>m. colsLoop b is m =
     Inr (m + length (filter (\<lambda>i. list_all (\<lambda>j. isFlipped (b ! (j * 5 + i))) [0..<5]) is))"
    using Cons.IH Cons.prems by simp
  show ?case
    unfolding colsLoop.simps col by (simp add: rest)
qed

lemma rowFull_line:
  assumes "length b = 25" and "i < 5"
  shows "rowFull b i = lineFlipped b (map (\<lambda>k. i * 5 + k) [0..<5])"
proof -
  have len: "length (take 5 (drop (i * 5) b)) = 5"
    using assms by simp
  have "list_all isFlipped (take 5 (drop (i * 5) b)) = (\<forall>k<5. isFlipped (b ! (i * 5 + k)))"
    unfolding list_all_length len using assms by simp
  also have "\<dots> = list_all (\<lambda>n. isFlipped (b ! n)) (map (\<lambda>k. i * 5 + k) [0..<5])"
    by (simp add: list_all_length)
  finally show ?thesis
    by (simp add: rowFull_def slice_def lineFlipped_def)
qed

lemma colFull_line:
  "list_all (\<lambda>j. isFlipped (b ! (j * 5 + i))) [0..<5] = lineFlipped b (map (\<lambda>k. k * 5 + i) [0..<5])"
  by (simp add: lineFlipped_def list_all_iff)

lemma count_rows:
  assumes "length b = 25"
  shows "length (filter (rowFull b) [0..<5]) = length (filter (lineFlipped b) bingoRows)"
proof -
  have "filter (rowFull b) [0..<5] = filter (\<lambda>i. lineFlipped b (map (\<lambda>k. i * 5 + k) [0..<5])) [0..<5]"
    by (rule filter_cong) (simp_all add: rowFull_line [OF assms])
  then show ?thesis
    by (simp add: bingoRows_def filter_map comp_def)
qed

lemma count_cols:
  "length (filter (\<lambda>i. list_all (\<lambda>j. isFlipped (b ! (j * 5 + i))) [0..<5]) [0..<5])
     = length (filter (lineFlipped b) bingoCols)"
  by (simp add: bingoCols_def filter_map comp_def colFull_line)

lemma diagonals_in_range:
  assumes "length b = 25"
  shows "everyFlippedAt b [0, 6, 12, 18, 24] = Inr (lineFlipped b [0, 6, 12, 18, 24])"
    and "everyFlippedAt b [4, 8, 12, 16, 20] = Inr (lineFlipped b [4, 8, 12, 16, 20])"
proof -
  show "everyFlippedAt b [0, 6, 12, 18, 24] = Inr (lineFlipped b [0, 6, 12, 18, 24])"
    unfolding lineFlipped_def by (rule everyFlippedAt_in_range) (use assms in auto)
  show "everyFlippedAt b [4, 8, 12, 16, 20] = Inr (lineFlipped b [4, 8, 12, 16, 20])"
    unfolding lineFlipped_def by (rule everyFlippedAt_in_range) (use assms in auto)
qed

lemma checkBingo_eq_count:
  assumes "length b = 25"
  shows "checkBingo b = Inr (countCompletedLines b)"
proof -
  have cols: "colsLoop b [0..<5] n =
      Inr (n + length (filter (lineFlipped b) bingoCols))" for n
    using colsLoop_count [of "[0..<5]" b n] assms by (simp add: count_cols)
  show ?thesis
    unfolding checkBingo_def Let_def rowsLoop_count cols diagonals_in_range [OF assms]
    by (simp add: countCompletedLines_def count_rows [OF assms] bingoDiagonals_def)
qed

lemma bingo_lines_explicit:
  "bingoRows @ bingoCols @ bingoDiagonals =
     [[0, 1, 2, 3, 4], [5, 6, 7, 8, 9], [10, 11, 12, 13, 14], [15, 16, 17, 18, 19],
      [20, 21, 22, 23, 24],
      [0, 5, 10, 15, 20], [1, 6, 11, 16, 21], [2, 7, 12, 17, 22], [3, 8, 13, 18, 23],
      [4, 9, 14, 19, 24],
      [0, 6, 12, 18, 24], [4, 8, 12, 16, 20]]"
  by (simp add: bingoRows_def bingoCols_def bingoDiagonals_def upt_rec)

lemma count_none:
  assumes "length b = 25" and "list_all (\<lambda>c. \<not> isFlipped c) b"
  shows "countCompletedLines b = 0"
proof -
  have "\<not> isFlipped (b ! i)" if "i < 25" for i
    using assms that by (simp add: list_all_length)
  then show ?thesis
    unfolding countCompletedLines_def bingo_lines_explicit
    by (simp add: lineFlipped_def)
qed

lemma count_all:
  assumes "length b = 25" and "list_all isFlipped b"
  shows "countCompletedLines b = 12"
proof -
  have "isFlipped (b ! i)" if "i < 25" for i
    using assms that by (simp add: list_all_length)
  then show ?thesis
    unfolding countCompletedLines_def bingo_lines_explicit
    by (simp add: lineFlipped_def)
qed

text \<open>
  Claim C3. On every board of 25 cells in row-major order, \<^verbatim>\<open>checkBingo\<close> returns (and
  does not throw) the number of lines, among the five rows, the five columns and the two
  diagonals \<open>{0,6,12,18,24}\<close> and \<open>{4,8,12,16,20}\<close> listed in \<open>bingo_lines_explicit\<close>,
  whose five cells are all flipped: 0 on a board with no cell flipped and 12 on a board
  with every cell flipped.
\<close>

theorem checkBingo_counts_completed_lines:
  "length b = 25 \<Longrightarrow>
     checkBingo b = Inr (countCompletedLines b)
     \<and> (list_all (\<lambda>c. \<not> isFlipped c) b \<longrightarrow> checkBingo b = Inr 0)
     \<and> (list_all isFlipped b \<longrightarrow> checkBingo b = Inr 12)"
  by (simp add: checkBingo_eq_count count_none count_all)

lemma exampleBoard_length: "length (board (examplePlayer i flipped n)) = 25"
  by (simp add: examplePlayer_def newPlayer_def examplePool_def)

theorem checkBingo_counts_completed_lines_witness:
  "length (board (examplePlayer 0 [0, 1, 2, 3, 4, 9, 14, 19, 24] 0)) = 25
   \<and> checkBingo (board (examplePlayer 0 [0, 1, 2, 3, 4, 9, 14, 19, 24] 0)) = Inr 2
   \<and> checkBingo (board (examplePlayer 0 [] 0)) = Inr 0
   \<and> checkBingo (board (examplePlayer 0 [0..<25] 0)) = Inr 12"
proof -
  have two: "countCompletedLines (board (examplePlayer 0 [0, 1, 2, 3, 4, 9, 14, 19, 24] 0)) = 2"
    by code_simp
  have none: "list_all (\<lambda>c. \<not> isFlipped c) (board (examplePlayer 0 [] 0))"
    by code_simp
  have full: "list_all isFlipped (board (examplePlayer 0 [0..<25] 0))"
    by code_simp
  have w1: "checkBingo (board (examplePlayer 0 [0, 1, 2, 3, 4, 9, 14, 19, 24] 0)) = Inr 2"
    using checkBingo_counts_completed_lines
      [OF exampleBoard_length, of 0 "[0, 1, 2, 3, 4, 9, 14, 19, 24]" 0]
    unfolding two by (rule conjunct1)
  have w2: "checkBingo (board (examplePlayer 0 [] 0)) = Inr 0"
    using checkBingo_counts_completed_lines [OF exampleBoard_length, of 0 "[]" 0] none
    by blast
  have w3: "checkBingo (board (examplePlayer 0 [0..<25] 0)) = Inr 12"
    using checkBingo_counts_completed_lines [OF exampleBoard_length, of 0 "[0..<25]" 0] full
    by blast
  show ?thesis
    using w1 w2 w3 exampleBoard_length by blast
qed

section \<open>Properties of the round evaluation\<close>

lemma mapE_total: "(\<And>x. x \<in> set xs \<Longrightarrow> f x = Inr (g x)) \<Longrightarrow> mapE f xs = Inr (map g xs)"
  by (induction xs) simp_all

lemma flipItem_length: "length (flipItem itemId b) = length b"
  by (simp add: flipItem_def)

lemma evaluatePlayer_spec:
  assumes "length (board p) = 25" and "correctOptionId q = hanja_id target"
  shows "evaluatePlayer q p =
     Inr (if isCorrect q (player_id p)
          then p\<lparr>board := flipItem (hanja_id target) (board p),
                 score := countCompletedLines (flipItem (hanja_id target) (board p))\<rparr>
          else p)"
proof -
  have "checkBingo (flipItem (hanja_id target) (board p))
          = Inr (countCompletedLines (flipItem (hanja_id target) (board p)))"
    using assms(1) by (simp add: checkBingo_eq_count flipItem_length)
  then show ?thesis
    using assms(2) by (simp add: evaluatePlayer_def isCorrect_def flipItem_def Let_def)
qed

lemma nextPlayers_spec:
  assumes "correctOptionId q = hanja_id target" and "\<And>p. p \<in> set ps \<Longrightarrow> length (board p) = 25"
  shows "nextPlayers q ps = Inr (evaluateRound_spec q target ps)"
  unfolding nextPlayers_def evaluateRound_spec_def
  by (rule mapE_total) (simp add: evaluatePlayer_spec assms)

lemma evaluateRound_total:
  assumes "quizState c = Some q" and "nextPlayers q (players c) = Inr ps"
  shows "\<exists>s'. evaluateRound c s = Inr s' \<and> players s' = ps"
  using assms by (simp add: evaluateRound_def addLog_def split: option.split)

text \<open>
  Claim C1. For every quiz state (its \<open>correctOptionId\<close> the id of its target item, as in
  every quiz that \<^verbatim>\<open>handleSelectCard\<close> builds) and all players with boards of 25 cells,
  the players that \<^verbatim>\<open>evaluateRound\<close> computes and stores are \<open>evaluateRound_spec\<close>: a
  player whose recorded answer is \<open>correctOptionId\<close> has, on the own board, exactly the
  cells holding the target item flipped and the score set to the completed lines of that
  board; every other player (another answer, the timeout marker, no answer) is returned
  as it was.
\<close>

theorem evaluateRound_flips_correct_players:
  assumes "targetHanja q = Some target" and "correctOptionId q = hanja_id target"
    and "\<forall>p\<in>set ps. length (board p) = 25"
  shows "nextPlayers q ps = Inr (evaluateRound_spec q target ps)
         \<and> (\<forall>c s. quizState c = Some q \<and> players c = ps \<longrightarrow>
               (\<exists>s'. evaluateRound c s = Inr s' \<and> players s' = evaluateRound_spec q target ps))"
proof -
  have np: "nextPlayers q ps = Inr (evaluateRound_spec q target ps)"
    using assms(2,3) by (simp add: nextPlayers_spec)
  then show ?thesis
    using evaluateRound_total by blast
qed

lemma exampleQuiz_target: "targetHanja (exampleQuiz given) = Some (exampleItem 4)"
  by (simp add: exampleQuiz_def buildQuiz_def Let_def)

lemma exampleQuiz_correct: "correctOptionId (exampleQuiz given) = hanja_id (exampleItem 4)"
  by (simp add: exampleQuiz_def buildQuiz_def Let_def)

lemma example_round_won:
  "evaluateRound_spec (exampleQuiz [(''player-1'', ''5''), (''player-2'', TIMEOUT_WRONG)])
      (exampleItem 4) [examplePlayer 0 [0, 1, 2, 3] 0, examplePlayer 1 [0, 1, 2, 3] 0]
     = [examplePlayer 0 [0, 1, 2, 3, 4] 1, examplePlayer 1 [0, 1, 2, 3] 0]"
  by code_simp

lemma example_round_open:
  "evaluateRound_spec (exampleQuiz [(''player-1'', ''7''), (''player-2'', TIMEOUT_WRONG)])
      (exampleItem 4) [examplePlayer 0 [0, 1, 2, 3] 0, examplePlayer 1 [0, 1, 2, 3] 0]
     = [examplePlayer 0 [0, 1, 2, 3] 0, examplePlayer 1 [0, 1, 2, 3] 0]"
  by code_simp

theorem evaluateRound_flips_correct_players_witness:
  "nextPlayers (exampleQuiz [(''player-1'', ''5''), (''player-2'', TIMEOUT_WRONG)])
      [examplePlayer 0 [0, 1, 2, 3] 0, examplePlayer 1 [0, 1, 2, 3] 0]
     = Inr [examplePlayer 0 [0, 1, 2, 3, 4] 1, examplePlayer 1 [0, 1, 2, 3] 0]"
proof -
  have boards: "\<forall>p\<in>set [examplePlayer 0 [0, 1, 2, 3] 0, examplePlayer 1 [0, 1, 2, 3] 0].
      length (board p) = 25"
    by (simp add: exampleBoard_length)
  show ?thesis
    using evaluateRound_flips_correct_players
      [OF exampleQuiz_target exampleQuiz_correct boards,
       of "[(''player-1'', ''5''), (''player-2'', TIMEOUT_WRONG)]"]
    unfolding example_round_won by (rule conjunct1)
qed

lemma nextTurn_cycles:
  "n \<noteq> 0 \<Longrightarrow> nextTurn (Num t) n = Num ((t + 1) mod n)"
  "t < n \<Longrightarrow> nextTurn (Num t) n = Num (if Suc t = n then 0 else Suc t)"
  by (auto simp: mod_Suc)

text \<open>
  Claim C2. When \<^verbatim>\<open>evaluateRound\<close> has computed the players of the round (from the
  render \<open>c\<close> it closes over, firing in the state \<open>s\<close>): if some player's
  score is at least \<open>winLines\<close>, the phase is \<open>GAME_OVER\<close> and the player named as the
  winner is the first such player of the list; otherwise the phase is \<open>TURN_START\<close>, the
  quiz is dropped and \<open>turnIndex\<close> is \<open>(turnIndex + 1) mod\<close> the number of players, which
  is the next index, or 0 after the last one.
\<close>

theorem evaluateRound_decides_phase:
  assumes "quizState c = Some q" and "evaluateRound c s = Inr s'"
  shows "nextPlayers q (players c) = Inr (players s')
    \<and> ((\<exists>p\<in>set (players s'). winLines (settings c) \<le> score p) \<longrightarrow>
          phase s' = GAME_OVER
          \<and> (\<exists>i<length (players s').
                winLines (settings c) \<le> score (players s' ! i)
                \<and> (\<forall>j<i. \<not> winLines (settings c) \<le> score (players s' ! j))
                \<and> gameLog s' = take 5 (Victory (name (players s' ! i)) # gameLog s)))
    \<and> (\<not> (\<exists>p\<in>set (players s'). winLines (settings c) \<le> score p) \<longrightarrow>
          phase s' = TURN_START
          \<and> turnIndex s' = nextTurn (turnIndex s) (length (players c))
          \<and> quizState s' = None)
    \<and> (\<forall>t. turnIndex s = Num t \<and> players c \<noteq> [] \<longrightarrow>
          nextTurn (turnIndex s) (length (players c)) = Num ((t + 1) mod length (players c)))
    \<and> (\<forall>t. turnIndex s = Num t \<and> t < length (players c) \<longrightarrow>
          nextTurn (turnIndex s) (length (players c))
            = Num (if Suc t = length (players c) then 0 else Suc t))"
proof -
  obtain ps where ps: "nextPlayers q (players c) = Inr ps"
    using assms by (cases "nextPlayers q (players c)") (simp_all add: evaluateRound_def)
  let ?w = "winLines (settings c)"
  let ?n = "length (players c)"
  have turn1: "\<forall>t. turnIndex s = Num t \<and> players c \<noteq> [] \<longrightarrow>
      nextTurn (turnIndex s) ?n = Num ((t + 1) mod ?n)"
    by (simp add: nextTurn_cycles(1))
  have turn2: "\<forall>t. turnIndex s = Num t \<and> t < ?n \<longrightarrow>
      nextTurn (turnIndex s) ?n = Num (if Suc t = ?n then 0 else Suc t)"
    using nextTurn_cycles(2) by metis
  show ?thesis
  proof (cases "find (\<lambda>p. ?w \<le> score p) ps")
    case None
    then have s': "s' = s\<lparr>players := ps, phase := TURN_START,
        turnIndex := nextTurn (turnIndex s) ?n, quizState := None\<rparr>"
      using assms ps by (simp add: evaluateRound_def)
    have none: "\<not> (\<exists>p\<in>set ps. ?w \<le> score p)"
      using None by (simp add: find_None_iff)
    have "players s' = ps" "phase s' = TURN_START" "quizState s' = None"
        "turnIndex s' = nextTurn (turnIndex s) ?n"
      by (simp_all add: s')
    then show ?thesis
      using ps none turn1 turn2 by blast
  next
    case (Some winner)
    then have s': "s' = addLog (Victory (name winner)) (s\<lparr>players := ps, phase := GAME_OVER\<rparr>)"
      using assms ps by (simp add: evaluateRound_def)
    obtain i where i: "i < length ps" "?w \<le> score (ps ! i)" "winner = ps ! i"
        "\<forall>j<i. \<not> ?w \<le> score (ps ! j)"
      using Some unfolding find_Some_iff by blast
    have some: "\<exists>p\<in>set ps. ?w \<le> score p"
      using i(1,2) nth_mem by blast
    have fields: "players s' = ps" "phase s' = GAME_OVER"
        "gameLog s' = take 5 (Victory (name (ps ! i)) # gameLog s)"
      by (simp_all add: s' addLog_def i(3))
    have first: "\<exists>i<length (players s'). ?w \<le> score (players s' ! i)
        \<and> (\<forall>j<i. \<not> ?w \<le> score (players s' ! j))
        \<and> gameLog s' = take 5 (Victory (name (players s' ! i)) # gameLog s)"
      unfolding fields(1) using i(1,2,4) fields(3) by blast
    show ?thesis
      using ps some first turn1 turn2 fields(1,2) by blast
  qed
qed

lemma examplePlayer_score: "score (examplePlayer i flipped n) = n"
  by (simp add: examplePlayer_def)

theorem evaluateRound_decides_phase_witness:
  "(\<exists>s'. evaluateRound
            (exampleState QUIZ
             [examplePlayer 0 [0, 1, 2, 3] 0, examplePlayer 1 [0, 1, 2, 3] 0]
             (Some (exampleQuiz [(''player-1'', ''5''), (''player-2'', TIMEOUT_WRONG)])) 5)
            (exampleState QUIZ
             [examplePlayer 0 [0, 1, 2, 3] 0, examplePlayer 1 [0, 1, 2, 3] 0]
             (Some (exampleQuiz [(''player-1'', ''5''), (''player-2'', TIMEOUT_WRONG)])) 5) = Inr s'
         \<and> phase s' = GAME_OVER)
   \<and> (\<exists>s'. evaluateRound
            (exampleState QUIZ
             [examplePlayer 0 [0, 1, 2, 3] 0, examplePlayer 1 [0, 1, 2, 3] 0]
             (Some (exampleQuiz [(''player-1'', ''7''), (''player-2'', TIMEOUT_WRONG)])) 5)
            (exampleState QUIZ
             [examplePlayer 0 [0, 1, 2, 3] 0, examplePlayer 1 [0, 1, 2, 3] 0]
             (Some (exampleQuiz [(''player-1'', ''7''), (''player-2'', TIMEOUT_WRONG)])) 5) = Inr s'
         \<and> phase s' = TURN_START \<and> turnIndex s' = Num 1)"
proof -
  let ?ps = "[examplePlayer 0 [0, 1, 2, 3] 0, examplePlayer 1 [0, 1, 2, 3] 0]"
  let ?q1 = "exampleQuiz [(''player-1'', ''5''), (''player-2'', TIMEOUT_WRONG)]"
  let ?q2 = "exampleQuiz [(''player-1'', ''7''), (''player-2'', TIMEOUT_WRONG)]"
  let ?s1 = "exampleState QUIZ ?ps (Some ?q1) 5"
  let ?s2 = "exampleState QUIZ ?ps (Some ?q2) 5"
  have boards: "\<And>p. p \<in> set ?ps \<Longrightarrow> length (board p) = 25"
    by (auto simp: exampleBoard_length)
  note after1 = example_round_won
  note after2 = example_round_open
  have q1: "quizState ?s1 = Some ?q1" and p1: "players ?s1 = ?ps"
    and q2: "quizState ?s2 = Some ?q2" and p2: "players ?s2 = ?ps"
    and w1: "winLines (settings ?s1) = 1" and w2: "winLines (settings ?s2) = 1"
    and t2: "turnIndex ?s2 = Num 0"
    by (simp_all add: exampleState_def exampleSettings_def)
  have np1: "nextPlayers ?q1 (players ?s1)
      = Inr [examplePlayer 0 [0, 1, 2, 3, 4] 1, examplePlayer 1 [0, 1, 2, 3] 0]"
    unfolding p1 after1 [symmetric]
    by (rule nextPlayers_spec [OF exampleQuiz_correct]) (rule boards)
  have np2: "nextPlayers ?q2 (players ?s2) = Inr ?ps"
    unfolding p2 using nextPlayers_spec [OF exampleQuiz_correct boards] after2 by metis
  obtain s1' where s1': "evaluateRound ?s1 ?s1 = Inr s1'"
      and ps1: "players s1' = [examplePlayer 0 [0, 1, 2, 3, 4] 1, examplePlayer 1 [0, 1, 2, 3] 0]"
    using evaluateRound_total [OF q1 np1] by blast
  obtain s2' where s2': "evaluateRound ?s2 ?s2 = Inr s2'" and ps2: "players s2' = ?ps"
    using evaluateRound_total [OF q2 np2] by blast
  have win: "\<exists>p\<in>set (players s1'). winLines (settings ?s1) \<le> score p"
    unfolding ps1 w1 by (simp add: examplePlayer_score)
  have nowin: "\<not> (\<exists>p\<in>set (players s2'). winLines (settings ?s2) \<le> score p)"
    unfolding ps2 w2 by (simp add: examplePlayer_score)
  have r1: "phase s1' = GAME_OVER"
    using evaluateRound_decides_phase [OF q1 s1'] win by blast
  have r2: "phase s2' = TURN_START \<and> turnIndex s2' = nextTurn (turnIndex ?s2) (length (players ?s2))"
    using evaluateRound_decides_phase [OF q2 s2'] nowin by blast
  have r3: "nextTurn (turnIndex ?s2) (length (players ?s2)) = Num 1"
    unfolding t2 p2 by simp
  show ?thesis
    using s1' r1 s2' r2 r3 by metis
qed

section \<open>Properties of the answers of a quiz\<close>

lemma recordAnswer_answered:
  "truthy (answers q playerId) \<Longrightarrow> recordAnswer playerId optionId (Some q) = Some q"
  by (simp add: recordAnswer_def)

lemma recordAnswer_fresh:
  "\<not> truthy (answers q playerId) \<Longrightarrow>
   recordAnswer playerId optionId (Some q) = Some (q\<lparr>answers := (answers q)(playerId \<mapsto> optionId)\<rparr>)"
  by (simp add: recordAnswer_def)

lemma truthy_Some: "truthy (Some v) = (v \<noteq> [])"
  by (simp add: truthy_def)

lemma recordAnswer_keeps:
  assumes "answers q k = Some v" and "v \<noteq> []"
  shows "\<exists>q'. recordAnswer playerId optionId (Some q) = Some q' \<and> answers q' k = Some v"
proof (cases "truthy (answers q playerId)")
  case True
  then show ?thesis
    using assms by (simp add: recordAnswer_answered)
next
  case False
  then have "playerId \<noteq> k"
    using assms by (auto simp: truthy_Some)
  then show ?thesis
    using False assms by (simp add: recordAnswer_fresh)
qed

lemma fill_foldl:
  "foldl (\<lambda>newAnswers p. newAnswers(player_id p \<mapsto> TIMEOUT_WRONG)) m missing k
     = (if k \<in> player_id ` set missing then Some TIMEOUT_WRONG else m k)"
  by (induction missing arbitrary: m) auto

lemma missingPlayers_ids:
  "k \<in> player_id ` set (missingPlayers ps q)
     \<longleftrightarrow> k \<in> player_id ` set ps \<and> \<not> truthy (answers q k)"
  by (auto simp: missingPlayers_def)

lemma fillTimeouts_answers:
  "\<exists>q'. fillTimeouts (missingPlayers ps q) (Some q) = Some q'
     \<and> q' = q\<lparr>answers := answers q'\<rparr>
     \<and> (\<forall>k. answers q' k = (if k \<in> player_id ` set ps \<and> \<not> truthy (answers q k)
                              then Some TIMEOUT_WRONG else answers q k))"
  by (simp add: fillTimeouts_def fill_foldl missingPlayers_ids)

lemma fillTimeouts_keeps:
  assumes "answers q k = Some v" and "v \<noteq> []"
  shows "\<exists>q'. fillTimeouts (missingPlayers ps q) (Some q) = Some q' \<and> answers q' k = Some v"
  using fillTimeouts_answers [of ps q] assms by (auto simp: truthy_Some)

lemma applyQuizOp_keeps:
  assumes "answers q k = Some v" and "v \<noteq> []"
  shows "\<exists>q'. applyQuizOp ps (Some q) op = Some q' \<and> answers q' k = Some v"
proof (cases op)
  case (Answer playerId optionId)
  then show ?thesis
    using recordAnswer_keeps [OF assms] by simp
next
  case TimeoutFill
  then show ?thesis
    using fillTimeouts_keeps [OF assms] by simp
qed

lemma runQuizOps_keeps:
  "answers q k = Some v \<Longrightarrow> v \<noteq> [] \<Longrightarrow>
   \<exists>q'. runQuizOps ps ops (Some q) = Some q' \<and> answers q' k = Some v"
proof (induction ops arbitrary: q)
  case Nil
  then show ?case by (simp add: runQuizOps_def)
next
  case (Cons op ops)
  obtain q1 where q1: "applyQuizOp ps (Some q) op = Some q1" "answers q1 k = Some v"
    using applyQuizOp_keeps [OF Cons.prems] by blast
  have "runQuizOps ps (op # ops) (Some q) = runQuizOps ps ops (Some q1)"
    by (simp add: runQuizOps_def q1(1))
  then show ?case
    using Cons.IH [OF q1(2) Cons.prems(2)] by simp
qed

lemma truthy_recorded: "nonEmptyAnswers q \<Longrightarrow> truthy (answers q k) = (answers q k \<noteq> None)"
  by (cases "answers q k") (auto simp: nonEmptyAnswers_def truthy_def)

lemma buildQuiz_nonEmptyAnswers: "nonEmptyAnswers (buildQuiz r h allHanja)"
  by (simp add: nonEmptyAnswers_def buildQuiz_def Let_def)

lemma marker_nonEmpty: "TIMEOUT_WRONG \<noteq> []"
  by (simp add: TIMEOUT_WRONG_def)

lemma recordAnswer_nonEmpty:
  assumes "nonEmptyAnswers q" and "optionId \<noteq> []"
  shows "\<exists>q'. recordAnswer playerId optionId (Some q) = Some q' \<and> nonEmptyAnswers q'"
proof (cases "truthy (answers q playerId)")
  case True
  then show ?thesis
    using assms(1) by (simp add: recordAnswer_answered)
next
  case False
  have "nonEmptyAnswers (q\<lparr>answers := (answers q)(playerId \<mapsto> optionId)\<rparr>)"
    using assms by (simp add: nonEmptyAnswers_def)
  then show ?thesis
    using False by (simp add: recordAnswer_fresh)
qed

lemma fillTimeouts_nonEmpty:
  assumes "nonEmptyAnswers q"
  shows "\<exists>q'. fillTimeouts (missingPlayers ps q) (Some q) = Some q' \<and> nonEmptyAnswers q'"
proof -
  obtain q' where q': "fillTimeouts (missingPlayers ps q) (Some q) = Some q'"
    and ans: "\<And>k. answers q' k = (if k \<in> player_id ` set ps \<and> \<not> truthy (answers q k)
                              then Some TIMEOUT_WRONG else answers q k)"
    using fillTimeouts_answers [of ps q] by blast
  have "nonEmptyAnswers q'"
    unfolding nonEmptyAnswers_def
  proof (intro allI impI)
    fix k v assume "answers q' k = Some v"
    then show "v \<noteq> []"
      using assms marker_nonEmpty by (auto simp: ans nonEmptyAnswers_def split: if_splits)
  qed
  then show ?thesis
    using q' by blast
qed

lemma applyQuizOp_nonEmpty:
  assumes "nonEmptyAnswers q" and "nonEmptyOp op"
  shows "\<exists>q'. applyQuizOp ps (Some q) op = Some q' \<and> nonEmptyAnswers q'"
proof (cases op)
  case (Answer playerId optionId)
  then show ?thesis
    using recordAnswer_nonEmpty [OF assms(1), of optionId playerId] assms(2) by simp
next
  case TimeoutFill
  then show ?thesis
    using fillTimeouts_nonEmpty [OF assms(1)] by simp
qed

lemma runQuizOps_nonEmpty:
  "nonEmptyAnswers q \<Longrightarrow> list_all nonEmptyOp ops \<Longrightarrow>
   \<exists>q'. runQuizOps ps ops (Some q) = Some q' \<and> nonEmptyAnswers q'"
proof (induction ops arbitrary: q)
  case Nil
  then show ?case by (simp add: runQuizOps_def)
next
  case (Cons op ops)
  obtain q1 where q1: "applyQuizOp ps (Some q) op = Some q1" "nonEmptyAnswers q1"
    using applyQuizOp_nonEmpty [of q op ps] Cons.prems by auto
  have "runQuizOps ps (op # ops) (Some q) = runQuizOps ps ops (Some q1)"
    by (simp add: runQuizOps_def q1(1))
  then show ?case
    using Cons.IH [OF q1(2)] Cons.prems(2) by simp
qed

lemma runQuizOps_append:
  "runQuizOps ps (ops1 @ ops2) prev = runQuizOps ps ops2 (runQuizOps ps ops1 prev)"
  by (simp add: runQuizOps_def)

lemma applyQuizOp_some: "\<exists>q'. applyQuizOp ps (Some q) op = Some q'"
  by (cases op) (simp_all add: recordAnswer_def fillTimeouts_def)

lemma runQuizOps_some: "\<exists>q'. runQuizOps ps ops (Some q) = Some q'"
proof (induction ops arbitrary: q)
  case Nil
  show ?case by (simp add: runQuizOps_def)
next
  case (Cons op ops)
  obtain q1 where q1: "applyQuizOp ps (Some q) op = Some q1"
    using applyQuizOp_some by blast
  have "runQuizOps ps (op # ops) (Some q) = runQuizOps ps ops (Some q1)"
    by (simp add: runQuizOps_def q1)
  then show ?case
    using Cons.IH [of q1] by simp
qed

lemma runQuizOps_entries_stay:
  assumes "nonEmptyAnswers q"
  shows "\<exists>q'. runQuizOps ps ops (Some q) = Some q'
           \<and> (\<forall>k v. answers q k = Some v \<longrightarrow> answers q' k = Some v)"
proof -
  obtain q0 where q0: "runQuizOps ps ops (Some q) = Some q0"
    using runQuizOps_some by blast
  have "answers q0 k = Some v" if "answers q k = Some v" for k v
  proof -
    have "v \<noteq> []"
      using assms that by (auto simp: nonEmptyAnswers_def)
    then show ?thesis
      using runQuizOps_keeps [OF that, of ps ops] q0 by auto
  qed
  then show ?thesis
    using q0 by blast
qed

text \<open>
  Claim C4. The answers of a quiz hold ids of options or \<open>TIMEOUT_WRONG\<close>, never the empty
  string, and so do the option ids passed to \<^verbatim>\<open>handleQuizAnswer\<close> (the keys are the ids
  \<^verbatim>\<open>player-N\<close> of the players). On such a quiz \<^verbatim>\<open>handleQuizAnswer\<close>, which applies
  \<open>recordAnswer\<close>, changes nothing when the player already has an entry in \<open>answers\<close> and
  otherwise adds exactly the entry of that player with the option id. Consequently,
  through every sequence of answers and timeout fills, every entry that \<open>answers\<close> holds
  at some point is still there, with the same value, at every later point.
\<close>

theorem recordAnswer_write_once:
  assumes "nonEmptyAnswers q" and "optionId \<noteq> []"
    and "list_all nonEmptyOp earlier" and "list_all nonEmptyOp later"
  shows "(answers q playerId \<noteq> None \<longrightarrow> recordAnswer playerId optionId (Some q) = Some q)
   \<and> (answers q playerId = None \<longrightarrow>
        recordAnswer playerId optionId (Some q)
          = Some (q\<lparr>answers := (answers q)(playerId \<mapsto> optionId)\<rparr>))
   \<and> (\<exists>q'. recordAnswer playerId optionId (Some q) = Some q' \<and> nonEmptyAnswers q')
   \<and> quizState (handleQuizAnswer playerId optionId s) = recordAnswer playerId optionId (quizState s)
   \<and> (\<exists>q1 q2. runQuizOps ps earlier (Some q) = Some q1
          \<and> runQuizOps ps (earlier @ later) (Some q) = Some q2
          \<and> nonEmptyAnswers q1 \<and> nonEmptyAnswers q2
          \<and> (\<forall>k v. answers q1 k = Some v \<longrightarrow> answers q2 k = Some v))"
proof -
  have once: "answers q playerId \<noteq> None \<longrightarrow> recordAnswer playerId optionId (Some q) = Some q"
    using recordAnswer_answered [of q playerId optionId] truthy_recorded [OF assms(1), of playerId]
    by simp
  have adds: "answers q playerId = None \<longrightarrow>
        recordAnswer playerId optionId (Some q)
          = Some (q\<lparr>answers := (answers q)(playerId \<mapsto> optionId)\<rparr>)"
    using recordAnswer_fresh [of q playerId optionId] truthy_recorded [OF assms(1), of playerId]
    by simp
  have action: "quizState (handleQuizAnswer playerId optionId s)
      = recordAnswer playerId optionId (quizState s)"
    by (simp add: handleQuizAnswer_def)
  obtain q1 where q1: "runQuizOps ps earlier (Some q) = Some q1" "nonEmptyAnswers q1"
    using runQuizOps_nonEmpty [OF assms(1,3)] by blast
  obtain q2 where q2: "runQuizOps ps later (Some q1) = Some q2" "nonEmptyAnswers q2"
    using runQuizOps_nonEmpty [OF q1(2) assms(4)] by blast
  obtain q2' where q2': "runQuizOps ps later (Some q1) = Some q2'"
      "\<forall>k v. answers q1 k = Some v \<longrightarrow> answers q2' k = Some v"
    using runQuizOps_entries_stay [OF q1(2)] by blast
  have stay: "\<forall>k v. answers q1 k = Some v \<longrightarrow> answers q2 k = Some v"
    using q2(1) q2' by simp
  have whole: "runQuizOps ps (earlier @ later) (Some q) = Some q2"
    by (simp add: runQuizOps_append q1(1) q2(1))
  show ?thesis
    using once adds action recordAnswer_nonEmpty [OF assms(1,2)] q1 q2(2) stay whole by blast
qed

lemma exampleQuiz_answers: "answers (exampleQuiz given) = map_of given"
  by (simp add: exampleQuiz_def)

lemma exampleQuiz_nonEmpty: "nonEmptyAnswers (exampleQuiz [(''player-1'', ''5'')])"
  by (simp add: nonEmptyAnswers_def exampleQuiz_answers)

theorem recordAnswer_write_once_witness:
  "recordAnswer ''player-1'' ''7'' (Some (exampleQuiz [(''player-1'', ''5'')]))
     = Some (exampleQuiz [(''player-1'', ''5'')])
   \<and> (\<exists>q'. runQuizOps [examplePlayer 0 [] 0, examplePlayer 1 [] 0]
              [Answer ''player-1'' ''7'', TimeoutFill, Answer ''player-1'' ''9'']
              (Some (exampleQuiz [(''player-1'', ''5'')])) = Some q'
            \<and> answers q' ''player-1'' = Some ''5'')"
proof -
  let ?q = "exampleQuiz [(''player-1'', ''5'')]"
  let ?ps = "[examplePlayer 0 [] 0, examplePlayer 1 [] 0]"
  let ?ops = "[Answer ''player-1'' ''7'', TimeoutFill, Answer ''player-1'' ''9'']"
  have given: "answers ?q ''player-1'' = Some ''5''"
    by (simp add: exampleQuiz_answers)
  have ops: "list_all nonEmptyOp []" "list_all nonEmptyOp ?ops"
    by simp_all
  have start: "runQuizOps ?ps [] (Some ?q) = Some ?q"
    by (simp add: runQuizOps_def)
  have all: "(answers ?q ''player-1'' \<noteq> None \<longrightarrow> recordAnswer ''player-1'' ''7'' (Some ?q) = Some ?q)
      \<and> (\<exists>q1 q2. runQuizOps ?ps [] (Some ?q) = Some q1
            \<and> runQuizOps ?ps ([] @ ?ops) (Some ?q) = Some q2
            \<and> (\<forall>k v. answers q1 k = Some v \<longrightarrow> answers q2 k = Some v))"
    using recordAnswer_write_once
      [where q = ?q and optionId = "''7''" and playerId = "''player-1''"
         and earlier = "[]" and later = ?ops and ps = ?ps, OF exampleQuiz_nonEmpty _ ops]
    by blast
  have same: "recordAnswer ''player-1'' ''7'' (Some ?q) = Some ?q"
    using all given by simp
  obtain q2 where q2: "runQuizOps ?ps ?ops (Some ?q) = Some q2"
      "\<forall>k v. answers ?q k = Some v \<longrightarrow> answers q2 k = Some v"
    using all unfolding start append_Nil by blast
  have "answers q2 ''player-1'' = Some ''5''"
    using q2(2) given by blast
  then show ?thesis
    using same q2(1) by blast
qed

text \<open>
  The invariant is needed: the test of \<^verbatim>\<open>handleQuizAnswer\<close> is the truth value of the
  entry, so an entry holding the empty string, which no writer produces, would be
  replaced by the next answer.
\<close>

lemma recordAnswer_empty_entry:
  "answers (exampleQuiz [(''player-1'', [])]) ''player-1'' = Some []
   \<and> recordAnswer ''player-1'' ''5'' (Some (exampleQuiz [(''player-1'', [])]))
        \<noteq> Some (exampleQuiz [(''player-1'', [])])
   \<and> map_option (\<lambda>q. answers q ''player-1'')
        (runQuizOps [] [Answer ''player-1'' []] (Some (exampleQuiz []))) = Some (Some [])
   \<and> map_option (\<lambda>q. answers q ''player-1'')
        (runQuizOps [] [Answer ''player-1'' [], Answer ''player-1'' ''5''] (Some (exampleQuiz [])))
        = Some (Some ''5'')"
proof -
  let ?q = "exampleQuiz [(''player-1'', [])]"
  have held: "answers ?q ''player-1'' = Some []"
    by (simp add: exampleQuiz_answers)
  have written: "recordAnswer ''player-1'' ''5'' (Some ?q)
      = Some (?q\<lparr>answers := (answers ?q)(''player-1'' \<mapsto> ''5'')\<rparr>)"
    by (rule recordAnswer_fresh) (simp add: held truthy_def)
  have changed: "recordAnswer ''player-1'' ''5'' (Some ?q) \<noteq> Some ?q"
  proof
    assume "recordAnswer ''player-1'' ''5'' (Some ?q) = Some ?q"
    then have "?q\<lparr>answers := (answers ?q)(''player-1'' \<mapsto> ''5'')\<rparr> = ?q"
      unfolding written by simp
    then have "answers (?q\<lparr>answers := (answers ?q)(''player-1'' \<mapsto> ''5'')\<rparr>) ''player-1''
        = answers ?q ''player-1''"
      by (rule arg_cong)
    then show False
      unfolding held by simp
  qed
  have empty: "\<not> truthy (answers (exampleQuiz []) ''player-1'')"
    by (simp add: exampleQuiz_answers truthy_def)
  have first: "recordAnswer ''player-1'' [] (Some (exampleQuiz []))
      = Some ((exampleQuiz [])\<lparr>answers := (answers (exampleQuiz []))(''player-1'' \<mapsto> [])\<rparr>)"
    by (rule recordAnswer_fresh [OF empty])
  have again: "\<not> truthy (answers ((exampleQuiz [])\<lparr>answers := (answers (exampleQuiz []))(''player-1'' \<mapsto> [])\<rparr>) ''player-1'')"
    by (simp add: truthy_def)
  have one: "map_option (\<lambda>q. answers q ''player-1'')
        (runQuizOps [] [Answer ''player-1'' []] (Some (exampleQuiz []))) = Some (Some [])"
    by (simp add: runQuizOps_def first)
  have two: "map_option (\<lambda>q. answers q ''player-1'')
        (runQuizOps [] [Answer ''player-1'' [], Answer ''player-1'' ''5''] (Some (exampleQuiz [])))
        = Some (Some ''5'')"
    by (simp add: runQuizOps_def first recordAnswer_fresh [OF again])
  show ?thesis
    using held changed one two by blast
qed

section \<open>Properties of the countdown expiry in a quiz\<close>

lemma timeout_marker_not_fetched: "\<not> fetchedId TIMEOUT_WRONG"
  by code_simp

lemma empty_not_fetched: "\<not> fetchedId []"
  by code_simp

lemma geminiId_fetched: "fetchedId (geminiId now index)"
  by (simp add: fetchedId_def geminiId_def)

lemma fallback_fetched: "x \<in> set FALLBACK_IDS \<Longrightarrow> fetchedId x"
  by (simp add: fetchedId_def)

lemma evaluatePlayer_incorrect: "\<not> isCorrect q (player_id p) \<Longrightarrow> evaluatePlayer q p = Inr p"
  by (simp add: evaluatePlayer_def isCorrect_def)

lemma countdown_quiz_branch:
  assumes "phase s = QUIZ" and "timeLeft s = 0" and "quizState s = Some q" and "\<not> resultsShown q"
  shows "countdownEffect r s
     = Inr (s\<lparr>quizState := fillTimeouts (missingPlayers (players s) q) (Some q)\<rparr>)"
proof (cases "missingPlayers (players s) q")
  case Nil
  have "s\<lparr>quizState := Some q\<rparr> = s"
    using assms(3) by simp
  then show ?thesis
    using assms Nil by (simp add: countdownEffect_def timerRunning_def fillTimeouts_def)
next
  case (Cons p ps)
  then show ?thesis
    using assms by (simp add: countdownEffect_def timerRunning_def)
qed

text \<open>
  Claim C5. When the countdown effect runs in QUIZ with no time left, a quiz present and
  its results not shown, it writes \<open>TIMEOUT_WRONG\<close> for exactly the players without an
  answer (the test \<^verbatim>\<open>!quizState.answers[p.id]\<close>) and leaves every other entry and field
  of the quiz as it was; afterwards \<open>allAnswered\<close> holds and every player id is a key of
  \<open>answers\<close>. \<open>TIMEOUT_WRONG\<close> is none of the ids that \<^verbatim>\<open>fetchHanjaData\<close> gives to items, so
  a player filled in this way is not correct and round evaluation returns the player
  unchanged.
\<close>

theorem countdown_fills_timeouts:
  assumes "phase s = QUIZ" and "timeLeft s = 0" and "quizState s = Some q" and "\<not> resultsShown q"
  shows "\<exists>q'. countdownEffect r s = Inr (s\<lparr>quizState := Some q'\<rparr>)
     \<and> q' = q\<lparr>answers := answers q'\<rparr>
     \<and> (\<forall>k. answers q' k = (if k \<in> player_id ` set (players s) \<and> \<not> truthy (answers q k)
                              then Some TIMEOUT_WRONG else answers q k))
     \<and> allAnswered (players s) q'
     \<and> player_id ` set (players s) \<subseteq> dom (answers q')
     \<and> (\<forall>opt\<in>set (options q). fetchedId (hanja_id opt) \<longrightarrow> hanja_id opt \<noteq> TIMEOUT_WRONG)
     \<and> (fetchedId (correctOptionId q) \<longrightarrow>
          TIMEOUT_WRONG \<noteq> correctOptionId q
          \<and> (\<forall>p\<in>set (players s). \<not> truthy (answers q (player_id p)) \<longrightarrow>
                \<not> isCorrect q' (player_id p) \<and> evaluatePlayer q' p = Inr p))"
proof -
  obtain q' where fill: "fillTimeouts (missingPlayers (players s) q) (Some q) = Some q'"
    and same: "q' = q\<lparr>answers := answers q'\<rparr>"
    and ans: "\<And>k. answers q' k = (if k \<in> player_id ` set (players s) \<and> \<not> truthy (answers q k)
                              then Some TIMEOUT_WRONG else answers q k)"
    using fillTimeouts_answers [of "players s" q] by blast
  have eff: "countdownEffect r s = Inr (s\<lparr>quizState := Some q'\<rparr>)"
    using countdown_quiz_branch [OF assms] fill by simp
  have marker: "truthy (Some TIMEOUT_WRONG)"
    by (simp add: truthy_def TIMEOUT_WRONG_def)
  have answered: "truthy (answers q' (player_id p))" if "p \<in> set (players s)" for p
    using that marker by (simp add: ans)
  have all: "allAnswered (players s) q'"
    using answered by (simp add: allAnswered_def list_all_iff)
  have keys: "player_id ` set (players s) \<subseteq> dom (answers q')"
  proof
    fix k assume "k \<in> player_id ` set (players s)"
    then obtain p where "p \<in> set (players s)" "k = player_id p"
      by blast
    then have "truthy (answers q' k)"
      using answered by simp
    then show "k \<in> dom (answers q')"
      by (auto simp: truthy_def split: option.splits)
  qed
  have correct: "correctOptionId q' = correctOptionId q"
    by (subst same) simp
  have wrong: "TIMEOUT_WRONG \<noteq> correctOptionId q
      \<and> (\<forall>p\<in>set (players s). \<not> truthy (answers q (player_id p)) \<longrightarrow>
            \<not> isCorrect q' (player_id p) \<and> evaluatePlayer q' p = Inr p)"
    if fetched: "fetchedId (correctOptionId q)"
  proof -
    have differ: "TIMEOUT_WRONG \<noteq> correctOptionId q"
      using fetched timeout_marker_not_fetched by auto
    have "\<not> isCorrect q' (player_id p)"
      if "p \<in> set (players s)" "\<not> truthy (answers q (player_id p))" for p
      using that differ by (simp add: isCorrect_def ans correct)
    then show ?thesis
      using differ evaluatePlayer_incorrect by blast
  qed
  have ids: "\<forall>opt\<in>set (options q). fetchedId (hanja_id opt) \<longrightarrow> hanja_id opt \<noteq> TIMEOUT_WRONG"
    using timeout_marker_not_fetched by auto
  show ?thesis
    using eff same ans all keys ids wrong by blast
qed

lemma toString_1: "toString (Suc 0) = ''1''"
  by code_simp

lemma toString_2: "toString (Suc (Suc 0)) = ''2''"
  by code_simp

lemma toString_5: "toString 5 = ''5''"
  by code_simp

lemmas toString_digits = toString_1 toString_2 toString_5

lemma examplePlayer_ids:
  "player_id (examplePlayer 0 flipped n) = ''player-1''"
  "player_id (examplePlayer (Suc 0) flipped n) = ''player-2''"
  by (simp_all add: examplePlayer_def newPlayer_def toString_digits)

lemma exampleQuiz_fields:
  "correctOptionId (exampleQuiz given) = ''5''"
  "\<not> resultsShown (exampleQuiz given)"
  by (simp_all add: exampleQuiz_def buildQuiz_def Let_def exampleItem_def toString_digits)

lemma five_fetched: "fetchedId ''5''"
  by code_simp

theorem countdown_fills_timeouts_witness:
  "\<exists>q'. countdownEffect exampleRand
          (exampleState QUIZ [examplePlayer 0 [] 0, examplePlayer 1 [] 0]
             (Some (exampleQuiz [(''player-1'', ''5'')])) 0)
        = Inr ((exampleState QUIZ [examplePlayer 0 [] 0, examplePlayer 1 [] 0]
             (Some (exampleQuiz [(''player-1'', ''5'')])) 0)\<lparr>quizState := Some q'\<rparr>)
      \<and> answers q' ''player-1'' = Some ''5''
      \<and> answers q' ''player-2'' = Some TIMEOUT_WRONG
      \<and> allAnswered [examplePlayer 0 [] 0, examplePlayer 1 [] 0] q'
      \<and> evaluatePlayer q' (examplePlayer 1 [] 0) = Inr (examplePlayer 1 [] 0)"
proof -
  let ?ps = "[examplePlayer 0 [] 0, examplePlayer 1 [] 0]"
  let ?q = "exampleQuiz [(''player-1'', ''5'')]"
  let ?s = "exampleState QUIZ ?ps (Some ?q) 0"
  have st: "phase ?s = QUIZ" "timeLeft ?s = 0" "quizState ?s = Some ?q"
    by (simp_all add: exampleState_def)
  have ps: "players ?s = ?ps"
    by (simp add: exampleState_def)
  have given: "answers ?q ''player-1'' = Some ''5''" "answers ?q ''player-2'' = None"
    by (simp_all add: exampleQuiz_answers)
  have fetched: "fetchedId (correctOptionId ?q)"
    by (simp add: exampleQuiz_fields five_fetched)
  obtain q' where eff: "countdownEffect exampleRand ?s = Inr (?s\<lparr>quizState := Some q'\<rparr>)"
    and ans: "\<And>k. answers q' k = (if k \<in> player_id ` set ?ps \<and> \<not> truthy (answers ?q k)
                              then Some TIMEOUT_WRONG else answers ?q k)"
    and all: "allAnswered ?ps q'"
    and wrong: "\<And>p. p \<in> set ?ps \<Longrightarrow> \<not> truthy (answers ?q (player_id p)) \<Longrightarrow>
        evaluatePlayer q' p = Inr p"
    using countdown_fills_timeouts [OF st exampleQuiz_fields(2), of exampleRand] fetched
    unfolding ps by blast
  have a1: "answers q' ''player-1'' = Some ''5''"
    by (simp add: ans given truthy_def)
  have a2: "answers q' ''player-2'' = Some TIMEOUT_WRONG"
    by (simp add: ans given truthy_def examplePlayer_ids)
  have a3: "evaluatePlayer q' (examplePlayer 1 [] 0) = Inr (examplePlayer 1 [] 0)"
    by (rule wrong) (simp_all add: examplePlayer_ids given truthy_def)
  show ?thesis
    using eff a1 a2 all a3 by blast
qed

section \<open>Properties of the countdown across the phases\<close>

lemma handleSelectCard_result:
  "players s = p0 # rest \<Longrightarrow>
   handleSelectCard r h s
     = Inr (addLog QuizBattleStart
             (s\<lparr>quizState := Some (buildQuiz r h (map hanja (board p0))), phase := QUIZ\<rparr>))"
  by (simp add: handleSelectCard_def)

lemma handleSelectCard_fields:
  assumes "handleSelectCard r h s = Inr s'"
  shows "phase s' = QUIZ" and "timeLeft s' = timeLeft s" and "players s' = players s"
  using assms by (auto simp: handleSelectCard_def addLog_def split: list.splits)

text \<open>
  Claim C6. The phase change to PEEK (the turn-start timeout, then the timer
  initialisation effect) sets the countdown to 30; \<^verbatim>\<open>finishPeek\<close> moves to SELECT and
  leaves the remaining time exactly as it was, also after the effect of that phase change;
  the phase change to QUIZ (\<^verbatim>\<open>handleSelectCard\<close>, then the effect) sets the countdown to
  10 whatever time was left.
\<close>

theorem countdown_continuity:
  "timeLeft (timerInitEffect (turnStartTimeout s)) = 30
   \<and> (phase s = PEEK \<longrightarrow> timeLeft (timerInitEffect s) = 30)
   \<and> phase (finishPeek s) = SELECT
   \<and> timeLeft (finishPeek s) = timeLeft s
   \<and> timeLeft (timerInitEffect (finishPeek s)) = timeLeft s
   \<and> (phase s = QUIZ \<longrightarrow> timeLeft (timerInitEffect s) = 10)
   \<and> (handleSelectCard r h s = Inr s' \<longrightarrow> phase s' = QUIZ \<and> timeLeft (timerInitEffect s') = 10)"
proof -
  have enter_quiz: "phase s' = QUIZ \<and> timeLeft (timerInitEffect s') = 10"
    if "handleSelectCard r h s = Inr s'"
    using handleSelectCard_fields(1) [OF that]
    by (simp add: timerInitEffect_def QUIZ_TIMEOUT_def)
  show ?thesis
    using enter_quiz
    by (simp add: timerInitEffect_def turnStartTimeout_def finishPeek_def
        TURN_TIMEOUT_def QUIZ_TIMEOUT_def)
qed

lemma examplePlayers_first:
  "players (exampleState ph (p # ps) q t) = p # ps"
  by (simp add: exampleState_def)

theorem countdown_continuity_witness:
  "phase (exampleState PEEK [examplePlayer 0 [] 0, examplePlayer 1 [] 0] None 17) = PEEK
   \<and> timeLeft (timerInitEffect (exampleState PEEK [examplePlayer 0 [] 0, examplePlayer 1 [] 0] None 0)) = 30
   \<and> timeLeft (finishPeek (exampleState PEEK [examplePlayer 0 [] 0, examplePlayer 1 [] 0] None 17)) = 17
   \<and> (\<exists>s'. handleSelectCard exampleRand (exampleItem 4)
               (exampleState SELECT [examplePlayer 0 [] 0, examplePlayer 1 [] 0] None 17) = Inr s'
            \<and> timeLeft s' = 17 \<and> timeLeft (timerInitEffect s') = 10)"
proof -
  let ?ps = "[examplePlayer 0 [] 0, examplePlayer 1 [] 0]"
  have ph: "phase (exampleState PEEK ?ps None 0) = PEEK"
      "phase (exampleState PEEK ?ps None 17) = PEEK"
      "timeLeft (exampleState PEEK ?ps None 17) = 17"
      "timeLeft (exampleState SELECT ?ps None 17) = 17"
    by (simp_all add: exampleState_def)
  obtain s' where s': "handleSelectCard exampleRand (exampleItem 4)
      (exampleState SELECT ?ps None 17) = Inr s'"
    using handleSelectCard_result [OF examplePlayers_first] by blast
  have kept: "timeLeft s' = 17"
    using handleSelectCard_fields(2) [OF s'] ph(4) by simp
  have w1: "timeLeft (timerInitEffect (exampleState PEEK ?ps None 0)) = 30"
    using countdown_continuity [of "exampleState PEEK ?ps None 0"] ph(1) by blast
  have w2: "timeLeft (finishPeek (exampleState PEEK ?ps None 17)) = 17"
    using countdown_continuity [of "exampleState PEEK ?ps None 17"] ph(3) by metis
  have w3: "timeLeft (timerInitEffect s') = 10"
    using countdown_continuity [of "exampleState SELECT ?ps None 17" exampleRand "exampleItem 4" s'] s'
    by blast
  show ?thesis
    using ph(2) w1 w2 w3 s' kept by blast
qed

section \<open>Properties of the quiz construction\<close>

lemma shuffles_length: "shuffles sh \<Longrightarrow> length (sh xs) = length xs"
  unfolding shuffles_def by (metis mset_eq_length)

lemma shuffles_set: "shuffles sh \<Longrightarrow> set (sh xs) = set xs"
  unfolding shuffles_def by (metis mset_eq_setD)

lemma shuffles_distinct_map:
  assumes "shuffles sh" and "distinct (map f xs)"
  shows "distinct (map f (sh xs))"
proof -
  have "mset (map f (sh xs)) = mset (map f xs)"
    using assms(1) by (simp add: shuffles_def)
  then show ?thesis
    using assms(2) mset_eq_imp_distinct_iff by blast
qed

lemma shuffles_rev: "shuffles rev"
  by (simp add: shuffles_def)

lemma shuffles_same: "shuffles (\<lambda>xs. xs)"
  by (simp add: shuffles_def)

lemma buildQuiz_options:
  assumes shd: "shuffles (shuffleDistractors r)" and sho: "shuffles (shuffleOptions r)"
    and ids: "distinct (map hanja_id allHanja)"
    and enough: "3 \<le> length (filter (\<lambda>x. hanja_id x \<noteq> hanja_id h) allHanja)"
  shows "\<exists>ds. length ds = 3 \<and> distinct ds
      \<and> set ds \<subseteq> {x \<in> set allHanja. hanja_id x \<noteq> hanja_id h}
      \<and> mset (options (buildQuiz r h allHanja)) = mset (h # ds)
      \<and> length (options (buildQuiz r h allHanja)) = 4
      \<and> distinct (map hanja_id (options (buildQuiz r h allHanja)))"
proof -
  let ?cand = "filter (\<lambda>x. hanja_id x \<noteq> hanja_id h) allHanja"
  let ?ds = "take 3 (shuffleDistractors r ?cand)"
  have opts: "options (buildQuiz r h allHanja) = shuffleOptions r (h # ?ds)"
    by (simp add: buildQuiz_def Let_def)
  have len: "length ?ds = 3"
    using enough by (simp add: shuffles_length [OF shd])
  have "distinct (map hanja_id ?cand)"
    using ids by (simp add: distinct_map_filter)
  then have "distinct (map hanja_id (shuffleDistractors r ?cand))"
    by (rule shuffles_distinct_map [OF shd])
  then have dids: "distinct (map hanja_id ?ds)"
    by (simp add: take_map [symmetric])
  then have dds: "distinct ?ds"
    by (simp add: distinct_map)
  have sub: "set ?ds \<subseteq> {x \<in> set allHanja. hanja_id x \<noteq> hanja_id h}"
  proof -
    have "set ?ds \<subseteq> set (shuffleDistractors r ?cand)"
      by (rule set_take_subset)
    also have "\<dots> = set ?cand"
      by (rule shuffles_set [OF shd])
    finally show ?thesis
      by auto
  qed
  then have "hanja_id h \<notin> hanja_id ` set ?ds"
    by auto
  then have all: "distinct (map hanja_id (h # ?ds))"
    using dids by simp
  have m: "mset (options (buildQuiz r h allHanja)) = mset (h # ?ds)"
    unfolding opts using sho by (simp add: shuffles_def)
  have l4: "length (options (buildQuiz r h allHanja)) = 4"
    unfolding opts using len by (simp add: shuffles_length [OF sho])
  have dopts: "distinct (map hanja_id (options (buildQuiz r h allHanja)))"
    unfolding opts by (rule shuffles_distinct_map [OF sho all])
  show ?thesis
    using len dds sub m l4 dopts by blast
qed

lemma buildQuiz_fields:
  "targetHanja (buildQuiz r h allHanja) = Some h"
  "correctOptionId (buildQuiz r h allHanja) = hanja_id h"
  "answers (buildQuiz r h allHanja) = Map.empty"
  "\<not> resultsShown (buildQuiz r h allHanja)"
  by (simp_all add: buildQuiz_def Let_def)

text \<open>
  Claim C7. When the first player's board holds items with distinct ids and at least
  three of them differ from the selected item, \<^verbatim>\<open>handleSelectCard\<close> enters QUIZ with a
  quiz whose options are four pairwise distinct items: the selected item and three
  distinct items of that board other than it; \<open>correctOptionId\<close> is the selected item's
  id and occurs among the option ids, and \<open>answers\<close> is empty.
\<close>

theorem handleSelectCard_builds_quiz:
  assumes "players s = p0 # rest"
    and "shuffles (shuffleDistractors r)" and "shuffles (shuffleOptions r)"
    and "distinct (map hanja_id (map hanja (board p0)))"
    and "3 \<le> length (filter (\<lambda>x. hanja_id x \<noteq> hanja_id h) (map hanja (board p0)))"
  shows "\<exists>s' q ds. handleSelectCard r h s = Inr s' \<and> phase s' = QUIZ \<and> quizState s' = Some q
      \<and> length ds = 3 \<and> distinct ds
      \<and> set ds \<subseteq> {x \<in> set (map hanja (board p0)). hanja_id x \<noteq> hanja_id h}
      \<and> mset (options q) = mset (h # ds)
      \<and> length (options q) = 4
      \<and> distinct (options q) \<and> distinct (map hanja_id (options q))
      \<and> targetHanja q = Some h
      \<and> correctOptionId q = hanja_id h
      \<and> hanja_id h \<in> hanja_id ` set (options q)
      \<and> answers q = Map.empty \<and> \<not> resultsShown q"
proof -
  let ?q = "buildQuiz r h (map hanja (board p0))"
  let ?s' = "addLog QuizBattleStart (s\<lparr>quizState := Some ?q, phase := QUIZ\<rparr>)"
  have res: "handleSelectCard r h s = Inr ?s'"
    by (rule handleSelectCard_result [OF assms(1)])
  have st: "phase ?s' = QUIZ" "quizState ?s' = Some ?q"
    by (simp_all add: addLog_def)
  obtain ds where ds: "length ds = 3" "distinct ds"
      "set ds \<subseteq> {x \<in> set (map hanja (board p0)). hanja_id x \<noteq> hanja_id h}"
      "mset (options ?q) = mset (h # ds)" "length (options ?q) = 4"
      "distinct (map hanja_id (options ?q))"
    using buildQuiz_options [OF assms(2,3,4,5)] by blast
  have items: "distinct (options ?q)"
    using ds(6) by (simp add: distinct_map)
  have "h \<in> set (options ?q)"
    using ds(4) by (metis list.set_intros(1) mset_eq_setD)
  then have among: "hanja_id h \<in> hanja_id ` set (options ?q)"
    by blast
  show ?thesis
    using res st ds items among buildQuiz_fields [of r h "map hanja (board p0)"] by blast
qed

lemma exampleRand_shuffles:
  "shuffles (shuffleDistractors exampleRand)" "shuffles (shuffleOptions exampleRand)"
  "shuffles (shuffleCells exampleRand)"
  by (simp_all add: exampleRand_def shuffles_rev shuffles_same)

lemma examplePool_distinct:
  "distinct (map hanja_id (map hanja (board (examplePlayer 0 [] 0))))"
  by code_simp

lemma examplePool_enough:
  "3 \<le> length (filter (\<lambda>x. hanja_id x \<noteq> hanja_id (exampleItem 4))
            (map hanja (board (examplePlayer 0 [] 0))))"
  by code_simp

theorem handleSelectCard_builds_quiz_witness:
  "\<exists>s' q. handleSelectCard exampleRand (exampleItem 4)
             (exampleState SELECT [examplePlayer 0 [] 0, examplePlayer 1 [] 0] None 17) = Inr s'
      \<and> phase s' = QUIZ \<and> quizState s' = Some q
      \<and> length (options q) = 4 \<and> distinct (options q)
      \<and> correctOptionId q = hanja_id (exampleItem 4)
      \<and> hanja_id (exampleItem 4) \<in> hanja_id ` set (options q)
      \<and> answers q = Map.empty"
  using handleSelectCard_builds_quiz
    [OF examplePlayers_first exampleRand_shuffles(1,2) examplePool_distinct examplePool_enough,
     of SELECT "[examplePlayer 1 [] 0]" None 17]
  by blast

section \<open>Properties of the answers of the simulated opponents\<close>

lemma exampleQuiz_options:
  "options (exampleQuiz given) = [exampleItem 4, exampleItem 24, exampleItem 23, exampleItem 22]"
  by code_simp

text \<open>
  Claim C10, at a failing input. The AI whose turn it is takes, in the branch where the
  coin chose an incorrect answer, the first of all shuffled options: when the shuffle
  puts the correct option first, the submitted id is \<open>correctOptionId\<close>.
\<close>

theorem aiAnswerId_incorrect_branch_can_be_correct:
  "coin exampleRand = False
   \<and> map hanja_id (shuffleOptions exampleRand (options (exampleQuiz []))) = [''5'', ''25'', ''24'', ''23'']
   \<and> correctOptionId (exampleQuiz []) = ''5''
   \<and> aiAnswerId exampleRand (exampleQuiz []) = Inr ''5''"
  by code_simp

text \<open>
  The second effect does what the claim says: its incorrect branch draws from the options
  other than the correct one, so with a non-correct option present and no empty id the
  submitted id is an option id different from \<open>correctOptionId\<close>.
\<close>

lemma bystanderAnswerId_incorrect_branch:
  assumes "\<not> coin r" and "shuffles (shuffleOptions r)"
    and "\<exists>opt\<in>set (options q). hanja_id opt \<noteq> correctOptionId q"
    and "\<forall>opt\<in>set (options q). hanja_id opt \<noteq> []"
  shows "\<exists>a. bystanderAnswerId r q = Inr a \<and> a \<noteq> correctOptionId q
           \<and> a \<in> hanja_id ` set (options q)"
proof -
  let ?others = "filter (\<lambda>opt. hanja_id opt \<noteq> correctOptionId q) (options q)"
  have "?others \<noteq> []"
    using assms(3) by (simp add: filter_empty_conv)
  then have "shuffleOptions r ?others \<noteq> []"
    using shuffles_length [OF assms(2), of ?others] by auto
  then obtain opt rest where sh: "shuffleOptions r ?others = opt # rest"
    by (cases "shuffleOptions r ?others") auto
  have "opt \<in> set ?others"
    using sh shuffles_set [OF assms(2), of ?others] by (metis list.set_intros(1))
  then have opt: "opt \<in> set (options q)" "hanja_id opt \<noteq> correctOptionId q" "hanja_id opt \<noteq> []"
    using assms(4) by auto
  have "bystanderAnswerId r q = Inr (hanja_id opt)"
    using assms(1) opt(3) by (simp add: bystanderAnswerId_def Let_def sh listAt_def truthy_def)
  then show ?thesis
    using opt by blast
qed

section \<open>Flipped cells stay flipped\<close>

lemma cellKept_refl: "cellKept c c"
  by (simp add: cellKept_def)

lemma playerKept_refl: "playerKept p p"
  by (simp add: playerKept_def list_all2_refl cellKept_refl)

lemma boardsKept_refl: "boardsKept ps ps"
  by (simp add: boardsKept_def list_all2_refl playerKept_refl)

























lemma exampleGameOver_fields:
  "phase exampleGameOver = GAME_OVER"
  "players exampleGameOver = [examplePlayer 0 [0, 1, 2, 3, 4] 1, examplePlayer 1 [0, 1, 2, 3] 0]"
  "playerCount (settings exampleGameOver) = 2"
  by (simp_all add: exampleGameOver_def exampleState_def exampleSettings_def)



text \<open>
  The closure matters. With two evaluation timeouts pending, both scheduled in renders
  that hold the same players, the first flips a cell and the second stores the players
  computed from the list of its own render, in which that cell is not flipped.
\<close>

lemma exampleQuizOn_fields:
  "correctOptionId (exampleQuizOn n given) = hanja_id (exampleItem n)"
  "answers (exampleQuizOn n given) = map_of given"
  "\<not> resultsShown (exampleQuizOn n given)"
  by (simp_all add: exampleQuizOn_def buildQuiz_def Let_def)

lemma example_first_round:
  "evaluateRound_spec (exampleQuizOn 4 [(''player-1'', ''5''), (''player-2'', TIMEOUT_WRONG)])
      (exampleItem 4) [examplePlayer 0 [] 0, examplePlayer 1 [] 0]
     = [examplePlayer 0 [4] 0, examplePlayer 1 [] 0]"
  by code_simp

lemma example_second_round:
  "evaluateRound_spec (exampleQuizOn 7 [(''player-1'', ''8''), (''player-2'', TIMEOUT_WRONG)])
      (exampleItem 7) [examplePlayer 0 [] 0, examplePlayer 1 [] 0]
     = [examplePlayer 0 [7] 0, examplePlayer 1 [] 0]"
  by code_simp

lemma example_fifth_cell:
  "isFlipped (board (examplePlayer 0 [4] 0) ! 4)"
  "\<not> isFlipped (board (examplePlayer 0 [7] 0) ! 4)"
  by code_simp+

lemma stale_round_evaluation:
  "\<exists>s1 s2.
      play_step (exampleState QUIZ [examplePlayer 0 [] 0, examplePlayer 1 [] 0]
         (Some (exampleQuizOn 7 [(''player-1'', ''8''), (''player-2'', TIMEOUT_WRONG)])) 9) s1
    \<and> play_step s1 s2
    \<and> isFlipped (board (players s1 ! 0) ! 4)
    \<and> \<not> isFlipped (board (players s2 ! 0) ! 4)"
proof -
  let ?ps = "[examplePlayer 0 [] 0, examplePlayer 1 [] 0]"
  let ?q1 = "exampleQuizOn 4 [(''player-1'', ''5''), (''player-2'', TIMEOUT_WRONG)]"
  let ?q2 = "exampleQuizOn 7 [(''player-1'', ''8''), (''player-2'', TIMEOUT_WRONG)]"
  let ?c1 = "exampleState QUIZ ?ps (Some ?q1) 5"
  let ?c2 = "exampleState QUIZ ?ps (Some ?q2) 9"
  have boards: "\<And>p. p \<in> set ?ps \<Longrightarrow> length (board p) = 25"
    by (auto simp: exampleBoard_length)
  have marker: "truthy (Some TIMEOUT_WRONG)"
    by (simp add: truthy_def TIMEOUT_WRONG_def)
  have sched: "roundScheduled ?c1" "roundScheduled ?c2"
    using marker
    by (simp_all add: roundScheduled_def exampleState_def allAnswered_def exampleQuizOn_fields
        examplePlayer_ids truthy_def)
  have q: "quizState ?c1 = Some ?q1" "quizState ?c2 = Some ?q2"
      "players ?c1 = ?ps" "players ?c2 = ?ps"
    by (simp_all add: exampleState_def)
  have np1: "nextPlayers ?q1 (players ?c1) = Inr [examplePlayer 0 [4] 0, examplePlayer 1 [] 0]"
    unfolding q(3) example_first_round [symmetric]
    by (rule nextPlayers_spec [OF exampleQuizOn_fields(1)]) (rule boards)
  have np2: "nextPlayers ?q2 (players ?c2) = Inr [examplePlayer 0 [7] 0, examplePlayer 1 [] 0]"
    unfolding q(4) example_second_round [symmetric]
    by (rule nextPlayers_spec [OF exampleQuizOn_fields(1)]) (rule boards)
  obtain s1 where s1: "evaluateRound ?c1 ?c2 = Inr s1"
      "players s1 = [examplePlayer 0 [4] 0, examplePlayer 1 [] 0]"
    using evaluateRound_total [OF q(1) np1] by blast
  obtain s2 where s2: "evaluateRound ?c2 s1 = Inr s2"
      "players s2 = [examplePlayer 0 [7] 0, examplePlayer 1 [] 0]"
    using evaluateRound_total [OF q(2) np2] by blast
  have "play_step ?c2 s1" "play_step s1 s2"
    using play_step.evaluate_round [OF sched(1) s1(1)] play_step.evaluate_round [OF sched(2) s2(1)]
    by blast+
  moreover have "isFlipped (board (players s1 ! 0) ! 4)" "\<not> isFlipped (board (players s2 ! 0) ! 4)"
    unfolding s1(2) s2(2) nth_Cons_0 by (rule example_fifth_cell)+
  ultimately show ?thesis
    by blast
qed

section \<open>Guards of the entry points\<close>

lemma quizState_same: "quizState s = x \<Longrightarrow> s\<lparr>quizState := x\<rparr> = s"
  by (cases s) simp

lemma handleQuizAnswer_no_quiz: "quizState s = None \<Longrightarrow> handleQuizAnswer playerId optionId s = s"
  by (simp add: handleQuizAnswer_def recordAnswer_def quizState_same)

lemma handleQuizAnswer_answered:
  "quizState s = Some q \<Longrightarrow> truthy (answers q playerId) \<Longrightarrow>
   handleQuizAnswer playerId optionId s = s"
  by (simp add: handleQuizAnswer_def recordAnswer_def quizState_same)

lemma cardClick_guard:
  "\<not> isMyTurn s \<or> (phase s \<noteq> PEEK \<and> phase s \<noteq> SELECT) \<Longrightarrow> cardClick r cell s = Inr s"
  by (auto simp: cardClick_def Let_def)

lemma optionButton_guard: "phase s \<noteq> QUIZ \<Longrightarrow> optionButton optionId s = Inr s"
  by (simp add: optionButton_def split: option.split)

lemma handleSelectCard_unguarded:
  "players s \<noteq> [] \<Longrightarrow> \<exists>s'. handleSelectCard r h s = Inr s' \<and> phase s' = QUIZ \<and> quizState s' \<noteq> None"
  by (cases "players s") (simp_all add: handleSelectCard_def addLog_def)

text \<open>
  Claim C9, as the code has it. \<^verbatim>\<open>handlePeekClick\<close> changes nothing outside PEEK, when it
  is not the human's turn, or on a flipped cell. The handlers of the page check phase and
  actor before they call an action: a card click changes nothing unless it is the
  human's turn in PEEK or SELECT, the start, finish-peek and play-again buttons exist
  only in SETUP, in PEEK on the human's turn, and in GAME_OVER, and an option of the quiz
  only in QUIZ. \<^verbatim>\<open>handleQuizAnswer\<close> changes nothing without a quiz or for a player who
  has answered. The actions \<^verbatim>\<open>startGame\<close>, \<^verbatim>\<open>finishPeek\<close>, \<^verbatim>\<open>handleSelectCard\<close> and the
  reset have no check of their own: called in any phase they move to LOADING, SELECT,
  QUIZ (with a new quiz) and SETUP.
\<close>

theorem entry_point_guards:
  "(phase s \<noteq> PEEK \<or> \<not> isMyTurn s \<or> isFlipped cell \<longrightarrow> handlePeekClick cell s = s)
   \<and> (\<not> isMyTurn s \<or> (phase s \<noteq> PEEK \<and> phase s \<noteq> SELECT) \<longrightarrow> cardClick r cell s = Inr s)
   \<and> (phase s \<noteq> SETUP \<longrightarrow> startButton s = s)
   \<and> (phase s \<noteq> PEEK \<or> \<not> isMyTurn s \<longrightarrow> finishPeekButton s = s)
   \<and> (phase s \<noteq> GAME_OVER \<longrightarrow> playAgainButton s = s)
   \<and> (phase s \<noteq> QUIZ \<longrightarrow> optionButton optionId s = Inr s)
   \<and> (quizState s = None \<longrightarrow> handleQuizAnswer playerId optionId s = s)
   \<and> (quizState s = Some q \<and> truthy (answers q playerId) \<longrightarrow>
         handleQuizAnswer playerId optionId s = s)
   \<and> phase (startGame_begin s) = LOADING
   \<and> phase (finishPeek s) = SELECT
   \<and> (players s \<noteq> [] \<longrightarrow>
         (\<exists>s'. handleSelectCard r h s = Inr s' \<and> phase s' = QUIZ \<and> quizState s' \<noteq> None))
   \<and> phase (resetToSetup s) = SETUP"
proof -
  have peek: "phase s \<noteq> PEEK \<or> \<not> isMyTurn s \<or> isFlipped cell \<longrightarrow> handlePeekClick cell s = s"
    by (simp add: handlePeekClick_def)
  have buttons: "phase s \<noteq> SETUP \<longrightarrow> startButton s = s"
      "phase s \<noteq> PEEK \<or> \<not> isMyTurn s \<longrightarrow> finishPeekButton s = s"
      "phase s \<noteq> GAME_OVER \<longrightarrow> playAgainButton s = s"
    by (auto simp: startButton_def finishPeekButton_def playAgainButton_def)
  have raw: "phase (startGame_begin s) = LOADING" "phase (finishPeek s) = SELECT"
      "phase (resetToSetup s) = SETUP"
    by (simp_all add: startGame_begin_def finishPeek_def resetToSetup_def)
  show ?thesis
    using peek buttons raw cardClick_guard [of s r cell] optionButton_guard [of s optionId]
      handleQuizAnswer_no_quiz [of s playerId optionId]
      handleQuizAnswer_answered [of s q playerId optionId]
      handleSelectCard_unguarded [of s r h]
    by blast
qed

lemma exampleQuizState_fields:
  "phase (exampleState ph ps q t) = ph"
  "players (exampleState ph ps q t) = ps"
  "quizState (exampleState ph ps q t) = q"
  "turnIndex (exampleState ph ps q t) = Num 0"
  by (simp_all add: exampleState_def)

theorem entry_point_guards_witness:
  "handlePeekClick (newCell 0 (0, exampleItem 0))
      (exampleState QUIZ [examplePlayer 0 [] 0, examplePlayer 1 [] 0] (Some (exampleQuiz [(''player-1'', ''5'')])) 5)
     = exampleState QUIZ [examplePlayer 0 [] 0, examplePlayer 1 [] 0] (Some (exampleQuiz [(''player-1'', ''5'')])) 5
   \<and> cardClick exampleRand (newCell 0 (0, exampleItem 0))
      (exampleState QUIZ [examplePlayer 0 [] 0, examplePlayer 1 [] 0] (Some (exampleQuiz [(''player-1'', ''5'')])) 5)
     = Inr (exampleState QUIZ [examplePlayer 0 [] 0, examplePlayer 1 [] 0] (Some (exampleQuiz [(''player-1'', ''5'')])) 5)
   \<and> finishPeekButton
      (exampleState QUIZ [examplePlayer 0 [] 0, examplePlayer 1 [] 0] (Some (exampleQuiz [(''player-1'', ''5'')])) 5)
     = exampleState QUIZ [examplePlayer 0 [] 0, examplePlayer 1 [] 0] (Some (exampleQuiz [(''player-1'', ''5'')])) 5
   \<and> handleQuizAnswer ''player-1'' ''7''
      (exampleState QUIZ [examplePlayer 0 [] 0, examplePlayer 1 [] 0] (Some (exampleQuiz [(''player-1'', ''5'')])) 5)
     = exampleState QUIZ [examplePlayer 0 [] 0, examplePlayer 1 [] 0] (Some (exampleQuiz [(''player-1'', ''5'')])) 5
   \<and> optionButton ''7'' (exampleState PEEK [examplePlayer 0 [] 0, examplePlayer 1 [] 0] None 17)
     = Inr (exampleState PEEK [examplePlayer 0 [] 0, examplePlayer 1 [] 0] None 17)"
proof -
  let ?s = "exampleState QUIZ [examplePlayer 0 [] 0, examplePlayer 1 [] 0]
      (Some (exampleQuiz [(''player-1'', ''5'')])) 5"
  let ?t = "exampleState PEEK [examplePlayer 0 [] 0, examplePlayer 1 [] 0] None 17"
  have ph: "phase ?s \<noteq> PEEK" "phase ?s \<noteq> SELECT" "phase ?t \<noteq> QUIZ"
    by (simp_all add: exampleQuizState_fields)
  have answered: "quizState ?s = Some (exampleQuiz [(''player-1'', ''5'')])"
      "truthy (answers (exampleQuiz [(''player-1'', ''5'')]) ''player-1'')"
    by (simp_all add: exampleQuizState_fields exampleQuiz_answers truthy_def)
  have a: "handlePeekClick (newCell 0 (0, exampleItem 0)) ?s = ?s"
      "cardClick exampleRand (newCell 0 (0, exampleItem 0)) ?s = Inr ?s"
      "finishPeekButton ?s = ?s"
      "handleQuizAnswer ''player-1'' ''7'' ?s = ?s"
    using entry_point_guards
      [where s = ?s and cell = "newCell 0 (0, exampleItem 0)" and r = exampleRand
         and playerId = "''player-1''" and optionId = "''7''"
         and q = "exampleQuiz [(''player-1'', ''5'')]"]
      ph(1,2) answered by blast+
  have b: "optionButton ''7'' ?t = Inr ?t"
    using entry_point_guards [where s = ?t and optionId = "''7''"] ph(3) by blast
  show ?thesis
    using a b by blast
qed

lemma exampleOpponentPeek_fields:
  "phase exampleOpponentPeek = PEEK"
  "players exampleOpponentPeek = [examplePlayer 0 [] 0, examplePlayer 1 [] 0]"
  "\<not> isMyTurn exampleOpponentPeek"
  by (simp_all add: exampleOpponentPeek_def exampleState_def isMyTurn_def activePlayer_def
      listAt_def examplePlayer_ids)

text \<open>
  The claim as stated fails for the actions themselves: \<^verbatim>\<open>handleSelectCard\<close> called in
  PEEK on the opponent's turn starts a quiz, \<^verbatim>\<open>finishPeek\<close> called in GAME_OVER moves to
  SELECT, and \<^verbatim>\<open>startGame\<close> and the reset change the phase wherever they are called.
\<close>

theorem entry_point_guards_counterexample:
  "phase exampleOpponentPeek = PEEK
   \<and> \<not> isMyTurn exampleOpponentPeek
   \<and> (\<exists>s'. handleSelectCard exampleRand (exampleItem 4) exampleOpponentPeek = Inr s'
          \<and> phase s' = QUIZ \<and> s' \<noteq> exampleOpponentPeek)
   \<and> phase exampleGameOver = GAME_OVER
   \<and> phase (finishPeek exampleGameOver) = SELECT
   \<and> finishPeek exampleGameOver \<noteq> exampleGameOver
   \<and> phase (startGame_begin exampleGameOver) = LOADING
   \<and> phase (resetToSetup exampleOpponentPeek) = SETUP"
proof -
  obtain s' where s': "handleSelectCard exampleRand (exampleItem 4) exampleOpponentPeek = Inr s'"
      "phase s' = QUIZ"
    using handleSelectCard_unguarded [of exampleOpponentPeek exampleRand "exampleItem 4"]
    by (auto simp: exampleOpponentPeek_fields)
  have "s' \<noteq> exampleOpponentPeek"
    using s'(2) exampleOpponentPeek_fields(1) by auto
  moreover have "finishPeek exampleGameOver \<noteq> exampleGameOver"
  proof
    assume "finishPeek exampleGameOver = exampleGameOver"
    then have "phase (finishPeek exampleGameOver) = phase exampleGameOver"
      by simp
    then show False
      by (simp add: finishPeek_def exampleGameOver_fields)
  qed
  ultimately show ?thesis
    using s' exampleOpponentPeek_fields exampleGameOver_fields(1)
    by (auto simp: finishPeek_def startGame_begin_def resetToSetup_def)
qed

end
